theory Spec2Isabelle
  imports Main "HOL-Library.Word"
begin

section \<open>go-nozzle: slow-consumer detection between a firehose and its reader\<close>

text \<open>
  The development embeds the package \<open>nozzle\<close>: the raw consumer and the session
  teardown of \<open>consumer.go\<close>, and the slow-consumer detector (\<open>defaultSlowDetector\<close>,
  \<open>isTruncated\<close>) with its two relay goroutines.

  Go values are modelled as follows.
  \<^item> A pointer that may be \<open>nil\<close> is an \<open>option\<close>; a dereference of \<open>nil\<close> is a panic,
    the \<open>Inl\<close> branch of a sum.
  \<^item> An \<open>error\<close> interface value is \<open>error option\<close>, \<open>None\<close> being \<open>nil\<close>.
  \<^item> The logger is a sink of lines in the shared state, written in call order.
  \<^item> A goroutine is a control point plus the synchronisations it can take part in; a
    blocking channel operation is a transition that is enabled only when its partner is.
\<close>

subsection \<open>Errors and panics\<close>

text \<open>
  \<open>ErrorString\<close> is what \<open>fmt.Errorf\<close> builds from a verb-free format string.
  \<open>CloseError t\<close> is an error value whose dynamic type is \<open>*websocket.CloseError\<close>; the
  pointer \<open>t\<close> it holds may be \<open>nil\<close>, and then the error value itself is still not \<open>nil\<close>.
  \<open>ContextError\<close> wraps the two values \<open>ctx.Err()\<close> can return once the context is done,
  \<open>context.Canceled\<close> and \<open>context.DeadlineExceeded\<close>.
\<close>

datatype ctx_error = Canceled | DeadlineExceeded

record websocket_CloseError =
  Code :: int
  Text :: string

datatype error =
    ErrorString string
  | CloseError "websocket_CloseError option"
  | ContextError ctx_error

datatype panic =
    NilDereference
  | SendOnClosedChannel
  | PanicValue string

definition Errorf :: "string \<Rightarrow> error" where
  "Errorf msg = ErrorString msg"

text \<open>
  Modelled from the spec: \<open>websocket.ClosePolicyViolation\<close> is a constant of the
  gorilla/websocket library, which is not part of the repository; the specification gives
  its value, the close status code 1008 of RFC 6455.
\<close>

definition ClosePolicyViolation :: int where
  "ClosePolicyViolation = 1008"

subsection \<open>Envelopes\<close>

text \<open>
  \<open>events.Envelope\<close> is a protocol-buffer message of the sonde-go library. Its optional
  fields are pointers; the fields below are the ones the package reads, together with
  the counter payload. The generated getters are nil-safe: called on a \<open>nil\<close> message,
  or on a message whose field is unset, they return the field's default, which for the
  event type is the first enumerator and for a string is the empty string.
\<close>

datatype Envelope_EventType =
    Envelope_HttpStart
  | Envelope_HttpStop
  | Envelope_HttpStartStop
  | Envelope_LogMessage
  | Envelope_ValueMetric
  | Envelope_CounterEvent
  | Envelope_Error
  | Envelope_ContainerMetric

record CounterEvent =
  Name :: "string option"
  Delta :: "64 word option"
  Total :: "64 word option"

record Envelope =
  Origin :: "string option"
  EventType :: "Envelope_EventType option"
  Timestamp :: "64 word option"
  CounterEvent :: "CounterEvent option"

definition GetEventType :: "Envelope option \<Rightarrow> Envelope_EventType" where
  "GetEventType m =
     (case m of
        None \<Rightarrow> Envelope_HttpStart
      | Some e \<Rightarrow> (case EventType e of None \<Rightarrow> Envelope_HttpStart | Some t \<Rightarrow> t))"

definition GetOrigin :: "Envelope option \<Rightarrow> string" where
  "GetOrigin m =
     (case m of
        None \<Rightarrow> []
      | Some e \<Rightarrow> (case Origin e of None \<Rightarrow> [] | Some s \<Rightarrow> s))"

definition GetName :: "CounterEvent option \<Rightarrow> string" where
  "GetName m =
     (case m of
        None \<Rightarrow> []
      | Some c \<Rightarrow> (case Name c of None \<Rightarrow> [] | Some s \<Rightarrow> s))"

text \<open>
  \<open>isTruncated\<close>: the three conjuncts are evaluated left to right and \<open>&&\<close> stops at the
  first false one. The second conjunct reads the field \<open>envelope.CounterEvent\<close>, a
  dereference of \<open>envelope\<close> that panics when \<open>envelope\<close> is \<open>nil\<close>; the getters around
  it do not dereference.
\<close>

definition isTruncated :: "Envelope option \<Rightarrow> panic + bool" where
  "isTruncated envelope =
     (if GetEventType envelope = Envelope_CounterEvent then
        (case envelope of
           None \<Rightarrow> Inl NilDereference
         | Some e \<Rightarrow>
             if GetName (CounterEvent e) = ''TruncatingBuffer.DroppedMessages'' then
               (if GetOrigin envelope = ''doppler'' then Inr True else Inr False)
             else Inr False)
      else Inr False)"

subsection \<open>Shared state: the logger's output and the cancellation scopes\<close>

text \<open>
  A \<open>context.Context\<close> is a reference into the list of scopes; a scope holds what
  \<open>ctx.Err()\<close> returns, \<open>None\<close> until the scope is done. \<open>ctx.Done()\<close> is closed exactly
  when \<open>ctx.Err()\<close> is not \<open>nil\<close>. A log entry is the logger it was written to and the
  line.
\<close>

record world =
  contexts :: "ctx_error option list"
  logged :: "(nat \<times> string) list"

definition Println :: "nat \<Rightarrow> string \<Rightarrow> world \<Rightarrow> world" where
  "Println lg line w = w\<lparr>logged := logged w @ [(lg, line)]\<rparr>"

definition ctx_Err :: "world \<Rightarrow> nat \<Rightarrow> error option" where
  "ctx_Err w i = (if i < length (contexts w) then map_option ContextError (contexts w ! i) else None)"

definition ctx_Done :: "world \<Rightarrow> nat \<Rightarrow> bool" where
  "ctx_Done w i = (ctx_Err w i \<noteq> None)"

text \<open>
  Ending a scope is a one-way transition: the first call stores the termination error,
  later calls change nothing. A \<open>context.CancelFunc\<close> ends its scope with \<open>Canceled\<close>.
\<close>

definition finish :: "nat \<Rightarrow> ctx_error \<Rightarrow> world \<Rightarrow> world" where
  "finish i e w =
     (if i < length (contexts w) \<and> contexts w ! i = None
      then w\<lparr>contexts := (contexts w)[i := Some e]\<rparr>
      else w)"

definition cancel :: "nat \<Rightarrow> world \<Rightarrow> world" where
  "cancel i w = finish i Canceled w"

text \<open>\<open>context.WithCancel(context.Background())\<close>: a fresh scope, not done.\<close>

definition WithCancel :: "world \<Rightarrow> nat \<times> world" where
  "WithCancel w = (length (contexts w), w\<lparr>contexts := contexts w @ [None]\<rparr>)"

subsection \<open>The raw consumer (consumer.go)\<close>

text \<open>
  Modelled from the spec: the type \<open>Config\<close> is declared in a file of the package that is
  not among the sources. The specification lists the recognised fields (source address,
  access token, subscription identity, insecure transport, logger); they are named here as
  \<open>newRawConsumer\<close> reads them, together with the debug printer it also copies. The
  debug printer and the logger are references.
\<close>

record Config =
  DopplerAddr :: string
  Token :: string
  SubscriptionID :: string
  Insecure :: bool
  DebugPrinter :: "nat option"
  Logger :: nat

text \<open>The connection of a raw consumer is \<open>nil\<close> until \<open>Consume\<close> stores one.\<close>

record rawConsumer =
  connection :: "nat option"
  dopplerAddr :: string
  token :: string
  subscriptionID :: string
  insecure :: bool
  debugPrinter :: "nat option"
  logger :: nat

definition validate :: "rawConsumer \<Rightarrow> error option" where
  "validate c =
     (if dopplerAddr c = [] then Some (Errorf ''DopplerAddr must not be empty'')
      else if token c = [] then Some (Errorf ''Token must not be empty'')
      else if subscriptionID c = [] then Some (Errorf ''SubscriptionID must not be empty'')
      else None)"

definition newRawConsumer :: "Config option \<Rightarrow> panic + (rawConsumer option \<times> error option)" where
  "newRawConsumer config =
     (case config of
        None \<Rightarrow> Inl NilDereference
      | Some cfg \<Rightarrow>
          (let c = \<lparr>connection = None,
                    dopplerAddr = DopplerAddr cfg,
                    token = Token cfg,
                    subscriptionID = SubscriptionID cfg,
                    insecure = Insecure cfg,
                    debugPrinter = DebugPrinter cfg,
                    logger = Logger cfg\<rparr>
           in case validate c of
                Some err \<Rightarrow> Inr (None, Some err)
              | None \<Rightarrow> Inr (Some c, None)))"

text \<open>
  \<open>rawConsumer.Close\<close>. The result of closing the noaa connection is decided outside the
  package; it is the parameter \<open>connClose\<close>.
\<close>

definition rawConsumer_Close :: "error option \<Rightarrow> rawConsumer \<Rightarrow> world \<Rightarrow> error option \<times> world" where
  "rawConsumer_Close connClose c w =
     (let w' = Println (logger c) ''[INFO] Stop consuming firehose events'' w
      in case connection c of
           None \<Rightarrow> (Some (Errorf ''no connection with firehose''), w')
         | Some conn \<Rightarrow> (connClose, w'))"

subsection \<open>The detector's handle (defaultSlowDetector)\<close>

record defaultSlowDetector =
  cancelFunc :: "nat option"
  sd_logger :: nat

definition Stop :: "defaultSlowDetector \<Rightarrow> world \<Rightarrow> error option \<times> world" where
  "Stop sd w =
     (let w' = Println (sd_logger sd) ''[INFO] Stop detecting slowConsumerAlert event'' w
      in case cancelFunc sd of
           None \<Rightarrow> (Some (Errorf ''cancel function is not given''), w')
         | Some i \<Rightarrow> (None, cancel i w'))"

subsection \<open>Session teardown (consumer.Close)\<close>

text \<open>
  The two fields of \<open>consumer\<close> are interface values; \<open>Close\<close> only calls their \<open>Close\<close>
  and \<open>Stop\<close> methods, which are the two parameters here.
\<close>

definition consumer_Close ::
  "('w \<Rightarrow> error option \<times> 'w) \<Rightarrow> ('w \<Rightarrow> error option \<times> 'w) \<Rightarrow> 'w \<Rightarrow> error option \<times> 'w" where
  "consumer_Close rawConsumer_close slowDetector_stop w =
     (case rawConsumer_close w of
        (Some err, w') \<Rightarrow> (Some err, w')
      | (None, w') \<Rightarrow> slowDetector_stop w')"

subsection \<open>The relay goroutines of DetectContext\<close>

text \<open>
  \<open>DetectContext\<close> makes three unbuffered channels (\<open>eventCh_\<close>, \<open>errCh_\<close>, \<open>detectCh\<close>)
  and starts two goroutines. Each goroutine is at one of the control points below; the
  item a goroutine holds between receiving and forwarding it is part of the control
  point.

  Event goroutine: \<open>EvRange\<close> waits in \<open>for event := range eventCh\<close>; \<open>EvAlert\<close> waits
  in \<open>detectCh <- ...\<close>; \<open>EvSelect\<close> waits in the \<open>select\<close> between
  \<open>eventCh_ <- event\<close> and \<open>ctx.Done()\<close>; \<open>EvCtxErr\<close> waits in \<open>errCh_ <- ctx.Err()\<close>;
  \<open>EvDrained\<close> has left the loop because \<open>eventCh\<close> was closed; \<open>EvCancelled\<close> has
  returned from the cancellation branch; \<open>EvPanicked\<close> has panicked. The error goroutine
  has the same points; its sends cannot find \<open>errCh_\<close> closed, since it alone closes that
  channel, but its type switch can panic.
\<close>

datatype ev_pc =
    EvRange
  | EvAlert "Envelope option"
  | EvSelect "Envelope option"
  | EvCtxErr
  | EvDrained
  | EvCancelled
  | EvPanicked panic

datatype er_pc =
    ErRange
  | ErAlert "error option"
  | ErSelect "error option"
  | ErCtxErr
  | ErDrained
  | ErCancelled
  | ErPanicked panic

text \<open>
  The state of one pipeline: the scope both goroutines captured, their control points,
  whether the deferred \<open>close\<close> of each output channel has run, and the values the
  readers of the three channels have received so far, in order.
\<close>

record pipeline =
  ctx :: nat
  plogger :: nat
  ev :: ev_pc
  er :: er_pc
  eventCh_closed :: bool
  errCh_closed :: bool
  eventCh_out :: "Envelope option list"
  errCh_out :: "error option list"
  detectCh_out :: "error list"

text \<open>
  The type switch of the error goroutine. The case \<open>*websocket.CloseError\<close> matches every
  error value of that dynamic type, a \<open>nil\<close> pointer included, and the condition
  \<open>t.Code == websocket.ClosePolicyViolation\<close> dereferences the pointer: on a \<open>nil\<close> pointer
  it panics. An alert is due when the result is \<open>Inr True\<close>.
\<close>

definition closePolicyViolated :: "error option \<Rightarrow> panic + bool" where
  "closePolicyViolated err =
     (case err of
        Some (CloseError t) \<Rightarrow>
          (case t of
             None \<Rightarrow> Inl NilDereference
           | Some c \<Rightarrow> Inr (Code c = ClosePolicyViolation))
      | _ \<Rightarrow> Inr False)"

definition truncatedAlert :: error where
  "truncatedAlert = Errorf ''doppler dropped messages from its queue because nozzle is slow''"

definition policyAlert :: error where
  "policyAlert = Errorf
     ''websocket terminates the connection because connection is too slow (ClosePolicyViolation)''"

text \<open>
  One synchronisation of the system. The \<open>Ev\<close> actions belong to the event goroutine,
  the \<open>Er\<close> actions to the error goroutine:
  \<^item> \<open>Recv x\<close>: the raw channel delivers \<open>x\<close> to the \<open>range\<close> loop;
  \<^item> \<open>InputClosed\<close>: the \<open>range\<close> loop finds the raw channel closed;
  \<^item> \<open>AlertTaken\<close>: a reader receives the goroutine's alert from \<open>detectCh\<close>;
  \<^item> \<open>Forwarded\<close>: the \<open>select\<close> takes the send case, a reader receives the item;
  \<^item> \<open>SawDone\<close>: the \<open>select\<close> takes the \<open>ctx.Done()\<close> case;
  \<^item> \<open>CtxErrTaken\<close>: a reader receives \<open>ctx.Err()\<close> from \<open>errCh_\<close>;
  \<^item> \<open>EvCtxErrPanics\<close>: the event goroutine's send of \<open>ctx.Err()\<close> finds \<open>errCh_\<close> closed.

  \<open>CtxEnd i e\<close> ends scope \<open>i\<close> with error \<open>e\<close> (a cancel function, a parent scope or
  a deadline), and \<open>CallStop sd\<close> is a call of \<open>Stop\<close> on the detector \<open>sd\<close>.
\<close>

datatype action =
    EvRecv "Envelope option"
  | EvInputClosed
  | EvAlertTaken
  | EvForwarded
  | EvSawDone
  | EvCtxErrTaken
  | EvCtxErrPanics
  | ErRecv "error option"
  | ErInputClosed
  | ErAlertTaken
  | ErForwarded
  | ErSawDone
  | ErCtxErrTaken
  | CtxEnd nat ctx_error
  | CallStop defaultSlowDetector

text \<open>
  \<open>step a s\<close> is \<open>None\<close> when \<open>a\<close> is not enabled in \<open>s\<close>: the goroutine is not at the
  matching control point, or the channel operation cannot complete there.
\<close>

fun step :: "action \<Rightarrow> world \<times> pipeline \<Rightarrow> (world \<times> pipeline) option" where
  "step (EvRecv event) (w, p) =
     (case ev p of
        EvRange \<Rightarrow>
          (case isTruncated event of
             Inl pn \<Rightarrow> Some (w, p\<lparr>ev := EvPanicked pn\<rparr>)
           | Inr True \<Rightarrow> Some (w, p\<lparr>ev := EvAlert event\<rparr>)
           | Inr False \<Rightarrow> Some (w, p\<lparr>ev := EvSelect event\<rparr>))
      | _ \<Rightarrow> None)"
| "step EvInputClosed (w, p) =
     (case ev p of
        EvRange \<Rightarrow> Some (w, p\<lparr>ev := EvDrained, eventCh_closed := True\<rparr>)
      | _ \<Rightarrow> None)"
| "step EvAlertTaken (w, p) =
     (case ev p of
        EvAlert event \<Rightarrow>
          Some (w, p\<lparr>ev := EvSelect event, detectCh_out := detectCh_out p @ [truncatedAlert]\<rparr>)
      | _ \<Rightarrow> None)"
| "step EvForwarded (w, p) =
     (case ev p of
        EvSelect event \<Rightarrow> Some (w, p\<lparr>ev := EvRange, eventCh_out := eventCh_out p @ [event]\<rparr>)
      | _ \<Rightarrow> None)"
| "step EvSawDone (w, p) =
     (case ev p of
        EvSelect event \<Rightarrow>
          if ctx_Done w (ctx p)
          then Some (Println (plogger p) ''[INFO] Canceled parent context: closing event channel'' w,
                     p\<lparr>ev := EvCtxErr\<rparr>)
          else None
      | _ \<Rightarrow> None)"
| "step EvCtxErrTaken (w, p) =
     (case ev p of
        EvCtxErr \<Rightarrow>
          if errCh_closed p then None
          else Some (w, p\<lparr>ev := EvCancelled, eventCh_closed := True,
                           errCh_out := errCh_out p @ [ctx_Err w (ctx p)]\<rparr>)
      | _ \<Rightarrow> None)"
| "step EvCtxErrPanics (w, p) =
     (case ev p of
        EvCtxErr \<Rightarrow>
          if errCh_closed p then Some (w, p\<lparr>ev := EvPanicked SendOnClosedChannel\<rparr>)
          else None
      | _ \<Rightarrow> None)"
| "step (ErRecv err) (w, p) =
     (case er p of
        ErRange \<Rightarrow>
          (case closePolicyViolated err of
             Inl pn \<Rightarrow> Some (w, p\<lparr>er := ErPanicked pn\<rparr>)
           | Inr True \<Rightarrow> Some (w, p\<lparr>er := ErAlert err\<rparr>)
           | Inr False \<Rightarrow> Some (w, p\<lparr>er := ErSelect err\<rparr>))
      | _ \<Rightarrow> None)"
| "step ErInputClosed (w, p) =
     (case er p of
        ErRange \<Rightarrow> Some (w, p\<lparr>er := ErDrained, errCh_closed := True\<rparr>)
      | _ \<Rightarrow> None)"
| "step ErAlertTaken (w, p) =
     (case er p of
        ErAlert err \<Rightarrow>
          Some (w, p\<lparr>er := ErSelect err, detectCh_out := detectCh_out p @ [policyAlert]\<rparr>)
      | _ \<Rightarrow> None)"
| "step ErForwarded (w, p) =
     (case er p of
        ErSelect err \<Rightarrow> Some (w, p\<lparr>er := ErRange, errCh_out := errCh_out p @ [err]\<rparr>)
      | _ \<Rightarrow> None)"
| "step ErSawDone (w, p) =
     (case er p of
        ErSelect err \<Rightarrow>
          if ctx_Done w (ctx p)
          then Some (Println (plogger p) ''[INFO] Canceled parent context: closing error channel'' w,
                     p\<lparr>er := ErCtxErr\<rparr>)
          else None
      | _ \<Rightarrow> None)"
| "step ErCtxErrTaken (w, p) =
     (case er p of
        ErCtxErr \<Rightarrow>
          Some (w, p\<lparr>er := ErCancelled, errCh_closed := True,
                      errCh_out := errCh_out p @ [ctx_Err w (ctx p)]\<rparr>)
      | _ \<Rightarrow> None)"
| "step (CtxEnd i e) (w, p) = Some (finish i e w, p)"
| "step (CallStop sd) (w, p) = Some (snd (Stop sd w), p)"

text \<open>
  A panic that nothing recovers, in either goroutine, ends the process: no action is
  enabled after it.
\<close>

definition crashed :: "pipeline \<Rightarrow> bool" where
  "crashed p =
     (case ev p of
        EvPanicked pn \<Rightarrow> True
      | _ \<Rightarrow> (case er p of ErPanicked pn \<Rightarrow> True | _ \<Rightarrow> False))"

fun exec :: "action list \<Rightarrow> world \<times> pipeline \<Rightarrow> (world \<times> pipeline) option" where
  "exec [] s = Some s"
| "exec (a # as) s =
     (if crashed (snd s) then None
      else case step a s of None \<Rightarrow> None | Some s' \<Rightarrow> exec as s')"

subsection \<open>Starting a pipeline\<close>

text \<open>
  \<open>DetectContext\<close> panics on a \<open>nil\<close> context; otherwise it logs, makes the channels and
  starts both goroutines at their \<open>range\<close> loops. It assigns no field of the detector.
  \<open>Detect\<close> makes a fresh scope, stores its cancel function in the detector and
  delegates.
\<close>

definition DetectContext ::
  "defaultSlowDetector \<Rightarrow> nat option \<Rightarrow> world \<Rightarrow> panic + (world \<times> pipeline)" where
  "DetectContext sd c w =
     (case c of
        None \<Rightarrow> Inl (PanicValue ''nil context'')
      | Some i \<Rightarrow>
          Inr (Println (sd_logger sd) ''[INFO] Start detecting slowConsumerAlert event'' w,
               \<lparr>ctx = i, plogger = sd_logger sd, ev = EvRange, er = ErRange,
                eventCh_closed = False, errCh_closed = False,
                eventCh_out = [], errCh_out = [], detectCh_out = []\<rparr>))"

definition Detect ::
  "defaultSlowDetector \<Rightarrow> world \<Rightarrow> panic + (defaultSlowDetector \<times> world \<times> pipeline)" where
  "Detect sd w =
     (case WithCancel w of
        (i, w') \<Rightarrow>
          (let sd' = sd\<lparr>cancelFunc := Some i\<rparr>
           in case DetectContext sd' (Some i) w' of
                Inl pn \<Rightarrow> Inl pn
              | Inr (w'', p) \<Rightarrow> Inr (sd', w'', p)))"

subsection \<open>What a run received, and what a goroutine holds\<close>

definition ev_received :: "action list \<Rightarrow> Envelope option list" where
  "ev_received run = concat (map (\<lambda>a. case a of EvRecv e \<Rightarrow> [e] | _ \<Rightarrow> []) run)"

definition er_received :: "action list \<Rightarrow> error option list" where
  "er_received run = concat (map (\<lambda>a. case a of ErRecv e \<Rightarrow> [e] | _ \<Rightarrow> []) run)"

definition ev_held :: "ev_pc \<Rightarrow> Envelope option list" where
  "ev_held pc = (case pc of EvAlert e \<Rightarrow> [e] | EvSelect e \<Rightarrow> [e] | _ \<Rightarrow> [])"

definition er_held :: "er_pc \<Rightarrow> error option list" where
  "er_held pc = (case pc of ErAlert e \<Rightarrow> [e] | ErSelect e \<Rightarrow> [e] | _ \<Rightarrow> [])"

text \<open>
  The envelopes and the errors for which a goroutine sends an alert, and the error a
  panicked error goroutine had received last: the type switch panics on nothing but the
  \<open>nil\<close> close-error pointer.
\<close>

definition truncated :: "Envelope option \<Rightarrow> bool" where
  "truncated e = (isTruncated e = Inr True)"

definition policyViolation :: "error option \<Rightarrow> bool" where
  "policyViolation err = (closePolicyViolated err = Inr True)"

definition er_lost :: "er_pc \<Rightarrow> error option list" where
  "er_lost pc = (case pc of ErPanicked pn \<Rightarrow> [Some (CloseError None)] | _ \<Rightarrow> [])"

text \<open>
  A run in which the scope is ended by nobody, except possibly through \<open>Stop\<close> on the
  detector \<open>sd\<close>: no \<open>CtxEnd\<close>, and no \<open>Stop\<close> on another detector.
\<close>

definition only_Stop_of :: "defaultSlowDetector \<Rightarrow> action \<Rightarrow> bool" where
  "only_Stop_of sd a = (case a of CtxEnd j e \<Rightarrow> False | CallStop d \<Rightarrow> d = sd | _ \<Rightarrow> True)"

subsection \<open>Fixture messages\<close>

text \<open>
  The literal messages of the specification's scenarios: Doppler's dropped-messages
  counter, a value metric, a close error with the policy-violation code, and a pipeline
  just started by \<open>DetectContext\<close> on a scope that is not done. \<open>nilClose\<close> is the error
  value that holds a \<open>nil\<close> \<open>*websocket.CloseError\<close>.
\<close>

definition droppedMessages :: "Envelope option" where
  "droppedMessages =
     Some \<lparr>Origin = Some ''doppler'', EventType = Some Envelope_CounterEvent, Timestamp = None,
           CounterEvent = Some \<lparr>Name = Some ''TruncatingBuffer.DroppedMessages'',
                                 Delta = Some 1, Total = Some 1\<rparr>\<rparr>"

definition cpuMetric :: "Envelope option" where
  "cpuMetric =
     Some \<lparr>Origin = Some ''cpu'', EventType = Some Envelope_ValueMetric, Timestamp = None,
           CounterEvent = None\<rparr>"

definition policyClose :: "error option" where
  "policyClose = Some (CloseError (Some \<lparr>Code = 1008, Text = ''policy violation''\<rparr>))"

definition nilClose :: "error option" where
  "nilClose = Some (CloseError None)"

definition started :: "world \<times> pipeline" where
  "started =
     (\<lparr>contexts = [None], logged = [(0, ''[INFO] Start detecting slowConsumerAlert event'')]\<rparr>,
      \<lparr>ctx = 0, plogger = 0, ev = EvRange, er = ErRange,
       eventCh_closed = False, errCh_closed = False,
       eventCh_out = [], errCh_out = [], detectCh_out = []\<rparr>)"

section \<open>Auxiliary facts\<close>

subsection \<open>The classifier and the scopes\<close>

lemma isTruncated_signature:
  "isTruncated envelope =
     Inr (GetEventType envelope = Envelope_CounterEvent
          \<and> GetName (case envelope of None \<Rightarrow> None | Some e \<Rightarrow> CounterEvent e) = ''TruncatingBuffer.DroppedMessages''
          \<and> GetOrigin envelope = ''doppler'')"
  by (cases envelope) (simp_all add: isTruncated_def GetEventType_def)

lemma isTruncated_truncated: "isTruncated e = Inr (truncated e)"
  by (simp add: truncated_def isTruncated_signature)

lemma closePolicyViolated_cases:
  "closePolicyViolated e =
     (if e = Some (CloseError None) then Inl NilDereference else Inr (policyViolation e))"
proof (cases e)
  case None
  then show ?thesis by (simp add: closePolicyViolated_def policyViolation_def)
next
  case (Some x)
  show ?thesis
  proof (cases x)
    case (CloseError t)
    with Some show ?thesis
      by (cases t) (simp_all add: closePolicyViolated_def policyViolation_def)
  qed (simp_all add: Some closePolicyViolated_def policyViolation_def)
qed

lemma policyViolation_iff:
  "policyViolation err \<longleftrightarrow> (\<exists>c. err = Some (CloseError (Some c)) \<and> Code c = 1008)"
  by (auto simp: policyViolation_def closePolicyViolated_def ClosePolicyViolation_def
      split: option.splits error.splits)

lemma Println_contexts [simp]: "contexts (Println lg l w) = contexts w"
  by (simp add: Println_def)

lemma Println_Err [simp]: "ctx_Err (Println lg l w) i = ctx_Err w i"
  by (simp add: ctx_Err_def)

lemma Println_Done [simp]: "ctx_Done (Println lg l w) i = ctx_Done w i"
  by (simp add: ctx_Done_def)

lemma finish_Done_mono: "ctx_Done w i \<Longrightarrow> ctx_Done (finish j e w) i"
  by (auto simp: finish_def ctx_Done_def ctx_Err_def nth_list_update split: if_splits)

lemma cancel_Done_mono: "ctx_Done w i \<Longrightarrow> ctx_Done (cancel j w) i"
  by (simp add: cancel_def finish_Done_mono)

lemma Stop_Done_mono: "ctx_Done w i \<Longrightarrow> ctx_Done (snd (Stop sd w)) i"
  by (cases "cancelFunc sd") (simp_all add: Stop_def Let_def cancel_Done_mono)

lemma finish_done_id: "ctx_Done w i \<Longrightarrow> finish i e w = w"
  by (auto simp: finish_def ctx_Done_def ctx_Err_def)

lemma finish_idem: "finish i e (finish i e' w) = finish i e' w"
  by (simp add: finish_def)

lemma finish_Err_keep: "ctx_Done w i \<Longrightarrow> ctx_Err (finish j e w) i = ctx_Err w i"
  by (auto simp: finish_def ctx_Done_def ctx_Err_def nth_list_update split: if_splits)

lemma Stop_unarmed:
  "cancelFunc sd = None \<Longrightarrow>
     Stop sd w = (Some (Errorf ''cancel function is not given''),
                  Println (sd_logger sd) ''[INFO] Stop detecting slowConsumerAlert event'' w)"
  by (simp add: Stop_def Let_def)

lemma Stop_armed:
  "cancelFunc sd = Some i \<Longrightarrow>
     Stop sd w = (None, cancel i (Println (sd_logger sd) ''[INFO] Stop detecting slowConsumerAlert event'' w))"
  by (simp add: Stop_def Let_def)

lemma Detect_result:
  "Detect sd w = Inr (sd\<lparr>cancelFunc := Some (length (contexts w))\<rparr>,
     Println (sd_logger sd) ''[INFO] Start detecting slowConsumerAlert event''
       (w\<lparr>contexts := contexts w @ [None]\<rparr>),
     \<lparr>ctx = length (contexts w), plogger = sd_logger sd, ev = EvRange, er = ErRange,
      eventCh_closed = False, errCh_closed = False,
      eventCh_out = [], errCh_out = [], detectCh_out = []\<rparr>)"
  by (simp add: Detect_def WithCancel_def DetectContext_def Let_def)

lemma consumer_Close_failed: "fst (rc w) \<noteq> None \<Longrightarrow> consumer_Close rc st w = rc w"
  by (cases "rc w") (auto simp: consumer_Close_def)

lemma consumer_Close_closed: "fst (rc w) = None \<Longrightarrow> consumer_Close rc st w = st (snd (rc w))"
  by (cases "rc w") (auto simp: consumer_Close_def)

subsection \<open>Each action, characterised by the state it needs and the state it gives\<close>

lemma step_EvRecv:
  "step (EvRecv e) (w, p) = Some s' \<longleftrightarrow>
     ev p = EvRange \<and> s' = (w, p\<lparr>ev := (if truncated e then EvAlert e else EvSelect e)\<rparr>)"
  by (cases "ev p") (auto simp: isTruncated_truncated)

lemma step_EvInputClosed:
  "step EvInputClosed (w, p) = Some s' \<longleftrightarrow>
     ev p = EvRange \<and> s' = (w, p\<lparr>ev := EvDrained, eventCh_closed := True\<rparr>)"
  by (cases "ev p") auto

lemma step_EvAlertTaken:
  "step EvAlertTaken (w, p) = Some s' \<longleftrightarrow>
     (\<exists>e. ev p = EvAlert e
        \<and> s' = (w, p\<lparr>ev := EvSelect e, detectCh_out := detectCh_out p @ [truncatedAlert]\<rparr>))"
  by (cases "ev p") auto

lemma step_EvForwarded:
  "step EvForwarded (w, p) = Some s' \<longleftrightarrow>
     (\<exists>e. ev p = EvSelect e \<and> s' = (w, p\<lparr>ev := EvRange, eventCh_out := eventCh_out p @ [e]\<rparr>))"
  by (cases "ev p") auto

lemma step_EvSawDone:
  "step EvSawDone (w, p) = Some s' \<longleftrightarrow>
     (\<exists>e. ev p = EvSelect e \<and> ctx_Done w (ctx p)
        \<and> s' = (Println (plogger p) ''[INFO] Canceled parent context: closing event channel'' w,
                 p\<lparr>ev := EvCtxErr\<rparr>))"
  by (cases "ev p") auto

lemma step_EvCtxErrTaken:
  "step EvCtxErrTaken (w, p) = Some s' \<longleftrightarrow>
     ev p = EvCtxErr \<and> \<not> errCh_closed p
       \<and> s' = (w, p\<lparr>ev := EvCancelled, eventCh_closed := True,
                      errCh_out := errCh_out p @ [ctx_Err w (ctx p)]\<rparr>)"
  by (cases "ev p") auto

lemma step_EvCtxErrPanics:
  "step EvCtxErrPanics (w, p) = Some s' \<longleftrightarrow>
     ev p = EvCtxErr \<and> errCh_closed p \<and> s' = (w, p\<lparr>ev := EvPanicked SendOnClosedChannel\<rparr>)"
  by (cases "ev p") auto

lemma step_ErRecv:
  "step (ErRecv e) (w, p) = Some s' \<longleftrightarrow>
     er p = ErRange
     \<and> s' = (w, p\<lparr>er := (if e = Some (CloseError None) then ErPanicked NilDereference
                          else if policyViolation e then ErAlert e else ErSelect e)\<rparr>)"
  by (cases "er p") (auto simp: closePolicyViolated_cases)

lemma step_ErInputClosed:
  "step ErInputClosed (w, p) = Some s' \<longleftrightarrow>
     er p = ErRange \<and> s' = (w, p\<lparr>er := ErDrained, errCh_closed := True\<rparr>)"
  by (cases "er p") auto

lemma step_ErAlertTaken:
  "step ErAlertTaken (w, p) = Some s' \<longleftrightarrow>
     (\<exists>e. er p = ErAlert e
        \<and> s' = (w, p\<lparr>er := ErSelect e, detectCh_out := detectCh_out p @ [policyAlert]\<rparr>))"
  by (cases "er p") auto

lemma step_ErForwarded:
  "step ErForwarded (w, p) = Some s' \<longleftrightarrow>
     (\<exists>e. er p = ErSelect e \<and> s' = (w, p\<lparr>er := ErRange, errCh_out := errCh_out p @ [e]\<rparr>))"
  by (cases "er p") auto

lemma step_ErSawDone:
  "step ErSawDone (w, p) = Some s' \<longleftrightarrow>
     (\<exists>e. er p = ErSelect e \<and> ctx_Done w (ctx p)
        \<and> s' = (Println (plogger p) ''[INFO] Canceled parent context: closing error channel'' w,
                 p\<lparr>er := ErCtxErr\<rparr>))"
  by (cases "er p") auto

lemma step_ErCtxErrTaken:
  "step ErCtxErrTaken (w, p) = Some s' \<longleftrightarrow>
     er p = ErCtxErr
       \<and> s' = (w, p\<lparr>er := ErCancelled, errCh_closed := True,
                      errCh_out := errCh_out p @ [ctx_Err w (ctx p)]\<rparr>)"
  by (cases "er p") auto

lemmas step_iff = step_EvRecv step_EvInputClosed step_EvAlertTaken step_EvForwarded step_EvSawDone
  step_EvCtxErrTaken step_EvCtxErrPanics step_ErRecv step_ErInputClosed step_ErAlertTaken
  step_ErForwarded step_ErSawDone step_ErCtxErrTaken

declare step.simps [simp del]

subsection \<open>Runs\<close>

lemma exec_snoc:
  "exec (run @ [a]) s =
     (case exec run s of
        None \<Rightarrow> None
      | Some s' \<Rightarrow> if crashed (snd s') then None else step a s')"
  by (induction run arbitrary: s) (auto split: option.splits)

lemma exec_invariant:
  assumes run: "exec run s0 = Some s"
    and init: "I [] s0"
    and pres: "\<And>r w p a w' p'. exec r s0 = Some (w, p) \<Longrightarrow> I r (w, p) \<Longrightarrow> \<not> crashed p
                 \<Longrightarrow> step a (w, p) = Some (w', p') \<Longrightarrow> I (r @ [a]) (w', p')"
  shows "I run s"
  using run
proof (induction run arbitrary: s rule: rev_induct)
  case Nil
  with init show ?case by simp
next
  case (snoc a r)
  from snoc.prems obtain w p where mid: "exec r s0 = Some (w, p)" and alive: "\<not> crashed p"
    and last: "step a (w, p) = Some s"
    by (auto simp: exec_snoc split: option.splits if_splits)
  obtain w' p' where s: "s = (w', p')" by (cases s)
  from pres [OF mid snoc.IH [OF mid] alive last [unfolded s]] s show ?case by simp
qed

lemma step_contexts:
  assumes "only_Stop_of sd a" and "cancelFunc sd = None" and "step a (w, p) = Some (w', p')"
  shows "contexts w' = contexts w"
proof (cases a)
  case (CtxEnd j e)
  with assms(1) show ?thesis by (simp add: only_Stop_of_def)
next
  case (CallStop d)
  with assms show ?thesis by (auto simp: only_Stop_of_def step.simps Stop_unarmed)
qed (use assms(3) in \<open>auto simp: step_iff\<close>)

lemma exec_contexts:
  "\<forall>a\<in>set run. only_Stop_of sd a \<Longrightarrow> cancelFunc sd = None \<Longrightarrow> exec run (w, p) = Some (w', p')
     \<Longrightarrow> contexts w' = contexts w"
proof (induction run arbitrary: w p)
  case Nil
  then show ?case by simp
next
  case (Cons a run)
  from Cons.prems(3) obtain w1 p1 where s: "step a (w, p) = Some (w1, p1)"
    and r: "exec run (w1, p1) = Some (w', p')"
    by (auto split: if_splits option.splits)
  from Cons.prems(1) have a: "only_Stop_of sd a" and rest: "\<forall>a\<in>set run. only_Stop_of sd a"
    by simp_all
  from step_contexts [OF a Cons.prems(2) s] Cons.IH [OF rest Cons.prems(2) r]
  show ?case by simp
qed

subsection \<open>The history of a run\<close>

text \<open>
  What a run from a freshly started pipeline has received determines, together with the
  control points, what the readers have seen: the items forwarded, the alerts taken, the
  cancellation errors sent and whether the output channels are closed.
\<close>

lemma alerts_distinct: "truncatedAlert \<noteq> policyAlert" "policyAlert \<noteq> truncatedAlert"
  by (simp_all add: truncatedAlert_def policyAlert_def Errorf_def)

lemma ev_received_snoc:
  "ev_received (r @ [a]) = ev_received r @ (case a of EvRecv e \<Rightarrow> [e] | _ \<Rightarrow> [])"
  by (simp add: ev_received_def)

lemma er_received_snoc:
  "er_received (r @ [a]) = er_received r @ (case a of ErRecv e \<Rightarrow> [e] | _ \<Rightarrow> [])"
  by (simp add: er_received_def)

lemma count_list_snoc: "count_list (xs @ [x]) y = count_list xs y + (if x = y then 1 else 0)"
  by (induction xs) simp_all

lemma ctx_Err_not_violation [simp]:
  "\<not> policyViolation (ctx_Err w i)" "ctx_Err w i \<noteq> Some (CloseError None)"
  by (auto simp: policyViolation_iff ctx_Err_def split: option.splits)

lemma nil_close_not_violation [simp]: "\<not> policyViolation (Some (CloseError None))"
  by (simp add: policyViolation_iff)

lemma DetectContext_initial:
  "DetectContext sd (Some i) w0 = Inr s0 \<Longrightarrow>
     s0 = (Println (sd_logger sd) ''[INFO] Start detecting slowConsumerAlert event'' w0,
           \<lparr>ctx = i, plogger = sd_logger sd, ev = EvRange, er = ErRange,
            eventCh_closed = False, errCh_closed = False,
            eventCh_out = [], errCh_out = [], detectCh_out = []\<rparr>)"
  by (auto simp: DetectContext_def)

lemma ev_history:
  assumes start: "DetectContext sd (Some i) w0 = Inr s0"
    and run: "exec run s0 = Some (w, p)"
  shows "(if ev p = EvCtxErr \<or> ev p = EvCancelled \<or> ev p = EvPanicked SendOnClosedChannel
          then ev_received run \<noteq> [] \<and> eventCh_out p = butlast (ev_received run)
               \<and> ctx_Done w (ctx p)
          else ev_received run = eventCh_out p @ ev_held (ev p))
       \<and> (EvSawDone \<in> set run \<longleftrightarrow>
            ev p = EvCtxErr \<or> ev p = EvCancelled \<or> ev p = EvPanicked SendOnClosedChannel)
       \<and> count_list run EvCtxErrTaken = (if ev p = EvCancelled then 1 else 0)
       \<and> (eventCh_closed p \<longleftrightarrow> ev p = EvDrained \<or> ev p = EvCancelled)
       \<and> count_list (detectCh_out p) truncatedAlert
            + length (filter truncated (case ev p of EvAlert e \<Rightarrow> [e] | _ \<Rightarrow> []))
           = length (filter truncated (ev_received run))
       \<and> (\<forall>e. ev p = EvAlert e \<longrightarrow> truncated e)
       \<and> (\<forall>pn. ev p = EvPanicked pn \<longrightarrow> pn = SendOnClosedChannel \<and> errCh_closed p)
       \<and> length (filter truncated (eventCh_out p))
            + length (filter truncated (case ev p of EvSelect e \<Rightarrow> [e] | _ \<Rightarrow> []))
           \<le> count_list (detectCh_out p) truncatedAlert"
proof -
  define I where "I = (\<lambda>r (s :: world \<times> pipeline).
       (if ev (snd s) = EvCtxErr \<or> ev (snd s) = EvCancelled \<or> ev (snd s) = EvPanicked SendOnClosedChannel
          then ev_received r \<noteq> [] \<and> eventCh_out (snd s) = butlast (ev_received r)
               \<and> ctx_Done (fst s) (ctx (snd s))
          else ev_received r = eventCh_out (snd s) @ ev_held (ev (snd s)))
       \<and> (EvSawDone \<in> set r \<longleftrightarrow>
            ev (snd s) = EvCtxErr \<or> ev (snd s) = EvCancelled \<or> ev (snd s) = EvPanicked SendOnClosedChannel)
       \<and> count_list r EvCtxErrTaken = (if ev (snd s) = EvCancelled then 1 else 0)
       \<and> (eventCh_closed (snd s) \<longleftrightarrow> ev (snd s) = EvDrained \<or> ev (snd s) = EvCancelled)
       \<and> count_list (detectCh_out (snd s)) truncatedAlert
            + length (filter truncated (case ev (snd s) of EvAlert e \<Rightarrow> [e] | _ \<Rightarrow> []))
           = length (filter truncated (ev_received r))
       \<and> (\<forall>e. ev (snd s) = EvAlert e \<longrightarrow> truncated e)
       \<and> (\<forall>pn. ev (snd s) = EvPanicked pn \<longrightarrow> pn = SendOnClosedChannel \<and> errCh_closed (snd s))
       \<and> length (filter truncated (eventCh_out (snd s)))
            + length (filter truncated (case ev (snd s) of EvSelect e \<Rightarrow> [e] | _ \<Rightarrow> []))
           \<le> count_list (detectCh_out (snd s)) truncatedAlert)"
  have "I run (w, p)"
  proof (rule exec_invariant [OF run])
    show "I [] s0"
      using DetectContext_initial [OF start]
      by (simp add: I_def ev_received_def ev_held_def)
  next
    fix r w p a w' p'
    assume inv: "I r (w, p)" and st: "step a (w, p) = Some (w', p')"
    show "I (r @ [a]) (w', p')"
    proof (cases a)
      case (EvRecv e)
      with st have pc: "ev p = EvRange"
        and nx: "w' = w" "p' = p\<lparr>ev := (if truncated e then EvAlert e else EvSelect e)\<rparr>"
        by (auto simp: step_iff)
      from inv show ?thesis
        by (auto simp: I_def EvRecv pc nx ev_received_snoc count_list_snoc ev_held_def)
    next
      case EvInputClosed
      with st have pc: "ev p = EvRange"
        and nx: "w' = w" "p' = p\<lparr>ev := EvDrained, eventCh_closed := True\<rparr>"
        by (auto simp: step_iff)
      from inv show ?thesis
        by (auto simp: I_def EvInputClosed pc nx ev_received_snoc count_list_snoc ev_held_def)
    next
      case EvAlertTaken
      with st obtain e where pc: "ev p = EvAlert e"
        and nx: "w' = w" "p' = p\<lparr>ev := EvSelect e, detectCh_out := detectCh_out p @ [truncatedAlert]\<rparr>"
        by (auto simp: step_iff)
      from inv show ?thesis
        by (auto simp: I_def EvAlertTaken pc nx ev_received_snoc count_list_snoc ev_held_def)
    next
      case EvForwarded
      with st obtain e where pc: "ev p = EvSelect e"
        and nx: "w' = w" "p' = p\<lparr>ev := EvRange, eventCh_out := eventCh_out p @ [e]\<rparr>"
        by (auto simp: step_iff)
      from inv show ?thesis
        by (auto simp: I_def EvForwarded pc nx ev_received_snoc count_list_snoc ev_held_def)
    next
      case EvSawDone
      with st obtain e where pc: "ev p = EvSelect e" "ctx_Done w (ctx p)"
        and nx: "w' = Println (plogger p) ''[INFO] Canceled parent context: closing event channel'' w" "p' = p\<lparr>ev := EvCtxErr\<rparr>"
        by (auto simp: step_iff)
      from inv show ?thesis
        by (auto simp: I_def EvSawDone pc nx ev_received_snoc count_list_snoc ev_held_def)
    next
      case EvCtxErrTaken
      with st have pc: "ev p = EvCtxErr" "\<not> errCh_closed p"
        and nx: "w' = w" "p' = p\<lparr>ev := EvCancelled, eventCh_closed := True, errCh_out := errCh_out p @ [ctx_Err w (ctx p)]\<rparr>"
        by (auto simp: step_iff)
      from inv show ?thesis
        by (auto simp: I_def EvCtxErrTaken pc nx ev_received_snoc count_list_snoc ev_held_def)
    next
      case EvCtxErrPanics
      with st have pc: "ev p = EvCtxErr" "errCh_closed p"
        and nx: "w' = w" "p' = p\<lparr>ev := EvPanicked SendOnClosedChannel\<rparr>"
        by (auto simp: step_iff)
      from inv show ?thesis
        by (auto simp: I_def EvCtxErrPanics pc nx ev_received_snoc count_list_snoc ev_held_def)
    next
      case (ErRecv e)
      with st have pc: "er p = ErRange"
        and nx: "w' = w" "p' = p\<lparr>er := (if e = Some (CloseError None) then ErPanicked NilDereference
                          else if policyViolation e then ErAlert e else ErSelect e)\<rparr>"
        by (auto simp: step_iff)
      from inv show ?thesis
        by (auto simp: I_def ErRecv pc nx ev_received_snoc count_list_snoc)
    next
      case ErInputClosed
      with st have pc: "er p = ErRange"
        and nx: "w' = w" "p' = p\<lparr>er := ErDrained, errCh_closed := True\<rparr>"
        by (auto simp: step_iff)
      from inv show ?thesis
        by (auto simp: I_def ErInputClosed pc nx ev_received_snoc count_list_snoc)
    next
      case ErAlertTaken
      with st obtain e where pc: "er p = ErAlert e"
        and nx: "w' = w" "p' = p\<lparr>er := ErSelect e, detectCh_out := detectCh_out p @ [policyAlert]\<rparr>"
        by (auto simp: step_iff)
      from inv alerts_distinct show ?thesis
        by (auto simp: I_def ErAlertTaken pc nx ev_received_snoc count_list_snoc)
    next
      case ErForwarded
      with st obtain e where pc: "er p = ErSelect e"
        and nx: "w' = w" "p' = p\<lparr>er := ErRange, errCh_out := errCh_out p @ [e]\<rparr>"
        by (auto simp: step_iff)
      from inv show ?thesis
        by (auto simp: I_def ErForwarded pc nx ev_received_snoc count_list_snoc)
    next
      case ErSawDone
      with st obtain e where pc: "er p = ErSelect e" "ctx_Done w (ctx p)"
        and nx: "w' = Println (plogger p) ''[INFO] Canceled parent context: closing error channel'' w" "p' = p\<lparr>er := ErCtxErr\<rparr>"
        by (auto simp: step_iff)
      from inv show ?thesis
        by (auto simp: I_def ErSawDone pc nx ev_received_snoc count_list_snoc)
    next
      case ErCtxErrTaken
      with st have pc: "er p = ErCtxErr"
        and nx: "w' = w" "p' = p\<lparr>er := ErCancelled, errCh_closed := True, errCh_out := errCh_out p @ [ctx_Err w (ctx p)]\<rparr>"
        by (auto simp: step_iff)
      from inv show ?thesis
        by (auto simp: I_def ErCtxErrTaken pc nx ev_received_snoc count_list_snoc)
    next
      case (CtxEnd j e)
      with st have nx: "w' = finish j e w" "p' = p"
        by (auto simp: step.simps)
      from inv show ?thesis
        by (auto simp: I_def CtxEnd nx ev_received_snoc count_list_snoc finish_Done_mono)
    next
      case (CallStop d)
      with st have nx: "w' = snd (Stop d w)" "p' = p"
        by (auto simp: step.simps)
      from inv show ?thesis
        by (auto simp: I_def CallStop nx ev_received_snoc count_list_snoc Stop_Done_mono)
    qed
  qed
  then show ?thesis unfolding I_def fst_conv snd_conv .
qed

lemma er_history:
  assumes start: "DetectContext sd (Some i) w0 = Inr s0"
    and run: "exec run s0 = Some (w, p)"
  shows "(ErSawDone \<notin> set run \<and> EvCtxErrTaken \<notin> set run \<longrightarrow>
            er_received run = errCh_out p @ er_held (er p) @ er_lost (er p))
       \<and> ((\<exists>pn. er p = ErPanicked pn) \<longleftrightarrow> Some (CloseError None) \<in> set (er_received run))
       \<and> (\<forall>pn. er p = ErPanicked pn \<longrightarrow> pn = NilDereference)
       \<and> (ErSawDone \<in> set run \<longleftrightarrow> er p = ErCtxErr \<or> er p = ErCancelled)
       \<and> (er p = ErCtxErr \<or> er p = ErCancelled \<longrightarrow> ctx_Done w (ctx p))
       \<and> count_list run ErCtxErrTaken = (if er p = ErCancelled then 1 else 0)
       \<and> (errCh_closed p \<longleftrightarrow> er p = ErDrained \<or> er p = ErCancelled)
       \<and> count_list (detectCh_out p) policyAlert
            + length (filter policyViolation (case er p of ErAlert e \<Rightarrow> [e] | _ \<Rightarrow> []))
           = length (filter policyViolation (er_received run))
       \<and> (\<forall>e. er p = ErAlert e \<longrightarrow> policyViolation e)
       \<and> length (filter policyViolation (errCh_out p))
            + length (filter policyViolation (case er p of ErSelect e \<Rightarrow> [e] | _ \<Rightarrow> []))
           \<le> count_list (detectCh_out p) policyAlert"
proof -
  define I where "I = (\<lambda>r (s :: world \<times> pipeline).
       (ErSawDone \<notin> set r \<and> EvCtxErrTaken \<notin> set r \<longrightarrow>
            er_received r = errCh_out (snd s) @ er_held (er (snd s)) @ er_lost (er (snd s)))
       \<and> ((\<exists>pn. er (snd s) = ErPanicked pn) \<longleftrightarrow> Some (CloseError None) \<in> set (er_received r))
       \<and> (\<forall>pn. er (snd s) = ErPanicked pn \<longrightarrow> pn = NilDereference)
       \<and> (ErSawDone \<in> set r \<longleftrightarrow> er (snd s) = ErCtxErr \<or> er (snd s) = ErCancelled)
       \<and> (er (snd s) = ErCtxErr \<or> er (snd s) = ErCancelled \<longrightarrow> ctx_Done (fst s) (ctx (snd s)))
       \<and> count_list r ErCtxErrTaken = (if er (snd s) = ErCancelled then 1 else 0)
       \<and> (errCh_closed (snd s) \<longleftrightarrow> er (snd s) = ErDrained \<or> er (snd s) = ErCancelled)
       \<and> count_list (detectCh_out (snd s)) policyAlert
            + length (filter policyViolation (case er (snd s) of ErAlert e \<Rightarrow> [e] | _ \<Rightarrow> []))
           = length (filter policyViolation (er_received r))
       \<and> (\<forall>e. er (snd s) = ErAlert e \<longrightarrow> policyViolation e)
       \<and> length (filter policyViolation (errCh_out (snd s)))
            + length (filter policyViolation (case er (snd s) of ErSelect e \<Rightarrow> [e] | _ \<Rightarrow> []))
           \<le> count_list (detectCh_out (snd s)) policyAlert)"
  have "I run (w, p)"
  proof (rule exec_invariant [OF run])
    show "I [] s0"
      using DetectContext_initial [OF start]
      by (simp add: I_def er_received_def er_held_def er_lost_def)
  next
    fix r w p a w' p'
    assume inv: "I r (w, p)" and st: "step a (w, p) = Some (w', p')"
    show "I (r @ [a]) (w', p')"
    proof (cases a)
      case (EvRecv e)
      with st have pc: "ev p = EvRange"
        and nx: "w' = w" "p' = p\<lparr>ev := (if truncated e then EvAlert e else EvSelect e)\<rparr>"
        by (auto simp: step_iff)
      from inv show ?thesis
        by (auto simp: I_def EvRecv pc nx er_received_snoc count_list_snoc)
    next
      case EvInputClosed
      with st have pc: "ev p = EvRange"
        and nx: "w' = w" "p' = p\<lparr>ev := EvDrained, eventCh_closed := True\<rparr>"
        by (auto simp: step_iff)
      from inv show ?thesis
        by (auto simp: I_def EvInputClosed pc nx er_received_snoc count_list_snoc)
    next
      case EvAlertTaken
      with st obtain e where pc: "ev p = EvAlert e"
        and nx: "w' = w" "p' = p\<lparr>ev := EvSelect e, detectCh_out := detectCh_out p @ [truncatedAlert]\<rparr>"
        by (auto simp: step_iff)
      from inv alerts_distinct show ?thesis
        by (auto simp: I_def EvAlertTaken pc nx er_received_snoc count_list_snoc)
    next
      case EvForwarded
      with st obtain e where pc: "ev p = EvSelect e"
        and nx: "w' = w" "p' = p\<lparr>ev := EvRange, eventCh_out := eventCh_out p @ [e]\<rparr>"
        by (auto simp: step_iff)
      from inv show ?thesis
        by (auto simp: I_def EvForwarded pc nx er_received_snoc count_list_snoc)
    next
      case EvSawDone
      with st obtain e where pc: "ev p = EvSelect e" "ctx_Done w (ctx p)"
        and nx: "w' = Println (plogger p) ''[INFO] Canceled parent context: closing event channel'' w" "p' = p\<lparr>ev := EvCtxErr\<rparr>"
        by (auto simp: step_iff)
      from inv show ?thesis
        by (auto simp: I_def EvSawDone pc nx er_received_snoc count_list_snoc)
    next
      case EvCtxErrTaken
      with st have pc: "ev p = EvCtxErr" "\<not> errCh_closed p"
        and nx: "w' = w" "p' = p\<lparr>ev := EvCancelled, eventCh_closed := True, errCh_out := errCh_out p @ [ctx_Err w (ctx p)]\<rparr>"
        by (auto simp: step_iff)
      from inv show ?thesis
        by (auto simp: I_def EvCtxErrTaken pc nx er_received_snoc count_list_snoc)
    next
      case EvCtxErrPanics
      with st have pc: "ev p = EvCtxErr" "errCh_closed p"
        and nx: "w' = w" "p' = p\<lparr>ev := EvPanicked SendOnClosedChannel\<rparr>"
        by (auto simp: step_iff)
      from inv show ?thesis
        by (auto simp: I_def EvCtxErrPanics pc nx er_received_snoc count_list_snoc)
    next
      case (ErRecv e)
      with st have pc: "er p = ErRange"
        and nx: "w' = w" "p' = p\<lparr>er := (if e = Some (CloseError None) then ErPanicked NilDereference
                          else if policyViolation e then ErAlert e else ErSelect e)\<rparr>"
        by (auto simp: step_iff)
      from inv show ?thesis
        by (auto simp: I_def ErRecv pc nx er_received_snoc count_list_snoc er_held_def er_lost_def)
    next
      case ErInputClosed
      with st have pc: "er p = ErRange"
        and nx: "w' = w" "p' = p\<lparr>er := ErDrained, errCh_closed := True\<rparr>"
        by (auto simp: step_iff)
      from inv show ?thesis
        by (auto simp: I_def ErInputClosed pc nx er_received_snoc count_list_snoc er_held_def er_lost_def)
    next
      case ErAlertTaken
      with st obtain e where pc: "er p = ErAlert e"
        and nx: "w' = w" "p' = p\<lparr>er := ErSelect e, detectCh_out := detectCh_out p @ [policyAlert]\<rparr>"
        by (auto simp: step_iff)
      from inv show ?thesis
        by (auto simp: I_def ErAlertTaken pc nx er_received_snoc count_list_snoc er_held_def er_lost_def)
    next
      case ErForwarded
      with st obtain e where pc: "er p = ErSelect e"
        and nx: "w' = w" "p' = p\<lparr>er := ErRange, errCh_out := errCh_out p @ [e]\<rparr>"
        by (auto simp: step_iff)
      from inv show ?thesis
        by (auto simp: I_def ErForwarded pc nx er_received_snoc count_list_snoc er_held_def er_lost_def)
    next
      case ErSawDone
      with st obtain e where pc: "er p = ErSelect e" "ctx_Done w (ctx p)"
        and nx: "w' = Println (plogger p) ''[INFO] Canceled parent context: closing error channel'' w" "p' = p\<lparr>er := ErCtxErr\<rparr>"
        by (auto simp: step_iff)
      from inv show ?thesis
        by (auto simp: I_def ErSawDone pc nx er_received_snoc count_list_snoc er_held_def er_lost_def)
    next
      case ErCtxErrTaken
      with st have pc: "er p = ErCtxErr"
        and nx: "w' = w" "p' = p\<lparr>er := ErCancelled, errCh_closed := True, errCh_out := errCh_out p @ [ctx_Err w (ctx p)]\<rparr>"
        by (auto simp: step_iff)
      from inv show ?thesis
        by (auto simp: I_def ErCtxErrTaken pc nx er_received_snoc count_list_snoc er_held_def er_lost_def)
    next
      case (CtxEnd j e)
      with st have nx: "w' = finish j e w" "p' = p"
        by (auto simp: step.simps)
      from inv show ?thesis
        by (auto simp: I_def CtxEnd nx er_received_snoc count_list_snoc finish_Done_mono)
    next
      case (CallStop d)
      with st have nx: "w' = snd (Stop d w)" "p' = p"
        by (auto simp: step.simps)
      from inv show ?thesis
        by (auto simp: I_def CallStop nx er_received_snoc count_list_snoc Stop_Done_mono)
    qed
  qed
  then show ?thesis unfolding I_def fst_conv snd_conv .
qed

text \<open>
  The error output is shared: besides the errors the error goroutine forwards it carries
  the cancellation error of the event goroutine, if that one has been sent. Until the
  error goroutine takes its own cancellation branch, the output is the forwarded errors
  with that one value inserted somewhere.
\<close>

lemma Stop_Err_keep: "ctx_Done w i \<Longrightarrow> ctx_Err (snd (Stop sd w)) i = ctx_Err w i"
  by (cases "cancelFunc sd") (simp_all add: Stop_def Let_def cancel_def finish_Err_keep)

lemma er_interleaved:
  assumes start: "DetectContext sd (Some i) w0 = Inr s0"
    and run: "exec run s0 = Some (w, p)"
  shows "ErSawDone \<notin> set run \<longrightarrow>
           (\<exists>pre post.
              errCh_out p = pre @ (if ev p = EvCancelled then [ctx_Err w (ctx p)] else []) @ post
            \<and> er_received run = pre @ post @ er_held (er p) @ er_lost (er p))"
proof -
  define I where "I = (\<lambda>r (s :: world \<times> pipeline).
      ErSawDone \<notin> set r \<longrightarrow>
           (\<exists>pre post.
              errCh_out (snd s)
                = pre @ (if ev (snd s) = EvCancelled then [ctx_Err (fst s) (ctx (snd s))] else []) @ post
            \<and> er_received r = pre @ post @ er_held (er (snd s)) @ er_lost (er (snd s))))"
  have "I run (w, p)"
  proof (rule exec_invariant [OF run])
    show "I [] s0"
      using DetectContext_initial [OF start]
      by (simp add: I_def er_received_def er_held_def er_lost_def)
  next
    fix r w p a w' p'
    assume prefix: "exec r s0 = Some (w, p)" and inv: "I r (w, p)"
      and alive: "\<not> crashed p" and st: "step a (w, p) = Some (w', p')"
    note ev = ev_history [OF start prefix] and er = er_history [OF start prefix]
    show "I (r @ [a]) (w', p')"
    proof (cases "ErSawDone \<in> set (r @ [a])")
      case True
      then show ?thesis unfolding I_def by blast
    next
      case False
      then have quiet: "ErSawDone \<notin> set r" and a: "a \<noteq> ErSawDone" by auto
      with inv have "\<exists>pre post.
              errCh_out p = pre @ (if ev p = EvCancelled then [ctx_Err w (ctx p)] else []) @ post
            \<and> er_received r = pre @ post @ er_held (er p) @ er_lost (er p)"
        unfolding I_def fst_conv snd_conv by blast
      then obtain pre post where
        out: "errCh_out p = pre @ (if ev p = EvCancelled then [ctx_Err w (ctx p)] else []) @ post"
        and rcv: "er_received r = pre @ post @ er_held (er p) @ er_lost (er p)"
        by blast
      from er quiet have er_pc: "er p \<noteq> ErCtxErr" "er p \<noteq> ErCancelled" by auto
      from ev have done_kept: "ev p = EvCancelled \<longrightarrow> ctx_Done w (ctx p)" by auto
      have "\<exists>pre' post'.
              errCh_out p' = pre' @ (if ev p' = EvCancelled then [ctx_Err w' (ctx p')] else []) @ post'
            \<and> er_received (r @ [a]) = pre' @ post' @ er_held (er p') @ er_lost (er p')"
      proof (cases a)
        case (EvRecv e)
        with st have "ev p = EvRange"
          and nx: "w' = w" "p' = p\<lparr>ev := (if truncated e then EvAlert e else EvSelect e)\<rparr>"
          by (auto simp: step_iff)
        with out rcv EvRecv show ?thesis
          by (auto simp: er_received_snoc)
      next
        case EvInputClosed
        with st have "ev p = EvRange"
          and nx: "w' = w" "p' = p\<lparr>ev := EvDrained, eventCh_closed := True\<rparr>"
          by (auto simp: step_iff)
        with out rcv EvInputClosed show ?thesis
          by (auto simp: er_received_snoc)
      next
        case EvAlertTaken
        with st obtain e where "ev p = EvAlert e"
          and nx: "w' = w" "p' = p\<lparr>ev := EvSelect e, detectCh_out := detectCh_out p @ [truncatedAlert]\<rparr>"
          by (auto simp: step_iff)
        with out rcv EvAlertTaken show ?thesis
          by (auto simp: er_received_snoc)
      next
        case EvForwarded
        with st obtain e where "ev p = EvSelect e"
          and nx: "w' = w" "p' = p\<lparr>ev := EvRange, eventCh_out := eventCh_out p @ [e]\<rparr>"
          by (auto simp: step_iff)
        with out rcv EvForwarded show ?thesis
          by (auto simp: er_received_snoc)
      next
        case EvSawDone
        with st obtain e where "ev p = EvSelect e"
          and nx: "w' = Println (plogger p) ''[INFO] Canceled parent context: closing event channel'' w"
            "p' = p\<lparr>ev := EvCtxErr\<rparr>"
          by (auto simp: step_iff)
        with out rcv EvSawDone show ?thesis
          by (auto simp: er_received_snoc)
      next
        case EvCtxErrTaken
        with st have pc: "ev p = EvCtxErr"
          and nx: "w' = w" "p' = p\<lparr>ev := EvCancelled, eventCh_closed := True,
                      errCh_out := errCh_out p @ [ctx_Err w (ctx p)]\<rparr>"
          by (auto simp: step_iff)
        from out pc have "errCh_out p = pre @ post" by simp
        with nx have "errCh_out p' = (pre @ post) @ (if ev p' = EvCancelled then [ctx_Err w' (ctx p')] else []) @ []"
          by simp
        moreover from rcv nx EvCtxErrTaken have "er_received (r @ [a]) = (pre @ post) @ [] @ er_held (er p') @ er_lost (er p')"
          by (simp add: er_received_snoc)
        ultimately show ?thesis by blast
      next
        case EvCtxErrPanics
        with st have "ev p = EvCtxErr"
          and nx: "w' = w" "p' = p\<lparr>ev := EvPanicked SendOnClosedChannel\<rparr>"
          by (auto simp: step_iff)
        with out rcv EvCtxErrPanics show ?thesis
          by (auto simp: er_received_snoc)
      next
        case (ErRecv e)
        with st have pc: "er p = ErRange"
          and nx: "w' = w" "p' = p\<lparr>er := (if e = Some (CloseError None) then ErPanicked NilDereference
                          else if policyViolation e then ErAlert e else ErSelect e)\<rparr>"
          by (auto simp: step_iff)
        from out nx have "errCh_out p' = pre @ (if ev p' = EvCancelled then [ctx_Err w' (ctx p')] else []) @ post"
          by simp
        moreover from rcv pc nx ErRecv have "er_received (r @ [a]) = pre @ post @ er_held (er p') @ er_lost (er p')"
          by (simp add: er_received_snoc er_held_def er_lost_def)
        ultimately show ?thesis by blast
      next
        case ErInputClosed
        with st have pc: "er p = ErRange"
          and nx: "w' = w" "p' = p\<lparr>er := ErDrained, errCh_closed := True\<rparr>"
          by (auto simp: step_iff)
        from out nx have "errCh_out p' = pre @ (if ev p' = EvCancelled then [ctx_Err w' (ctx p')] else []) @ post"
          by simp
        moreover from rcv pc nx ErInputClosed have "er_received (r @ [a]) = pre @ post @ er_held (er p') @ er_lost (er p')"
          by (simp add: er_received_snoc er_held_def er_lost_def)
        ultimately show ?thesis by blast
      next
        case ErAlertTaken
        with st obtain e where pc: "er p = ErAlert e"
          and nx: "w' = w" "p' = p\<lparr>er := ErSelect e, detectCh_out := detectCh_out p @ [policyAlert]\<rparr>"
          by (auto simp: step_iff)
        from out nx have "errCh_out p' = pre @ (if ev p' = EvCancelled then [ctx_Err w' (ctx p')] else []) @ post"
          by simp
        moreover from rcv pc nx ErAlertTaken have "er_received (r @ [a]) = pre @ post @ er_held (er p') @ er_lost (er p')"
          by (simp add: er_received_snoc er_held_def er_lost_def)
        ultimately show ?thesis by blast
      next
        case ErForwarded
        with st obtain e where pc: "er p = ErSelect e"
          and nx: "w' = w" "p' = p\<lparr>er := ErRange, errCh_out := errCh_out p @ [e]\<rparr>"
          by (auto simp: step_iff)
        from out nx have "errCh_out p' = pre @ (if ev p' = EvCancelled then [ctx_Err w' (ctx p')] else []) @ (post @ [e])"
          by simp
        moreover from rcv pc nx ErForwarded have "er_received (r @ [a]) = pre @ (post @ [e]) @ er_held (er p') @ er_lost (er p')"
          by (simp add: er_received_snoc er_held_def er_lost_def)
        ultimately show ?thesis by blast
      next
        case ErSawDone
        with a show ?thesis by simp
      next
        case ErCtxErrTaken
        with st have "er p = ErCtxErr" by (auto simp: step_iff)
        with er_pc show ?thesis by simp
      next
        case (CtxEnd j e)
        with st have nx: "w' = finish j e w" "p' = p"
          by (auto simp: step.simps)
        from out nx done_kept
        have "errCh_out p' = pre @ (if ev p' = EvCancelled then [ctx_Err w' (ctx p')] else []) @ post"
          by (simp add: finish_Err_keep)
        moreover from rcv nx CtxEnd have "er_received (r @ [a]) = pre @ post @ er_held (er p') @ er_lost (er p')"
          by (simp add: er_received_snoc)
        ultimately show ?thesis by blast
      next
        case (CallStop d)
        with st have nx: "w' = snd (Stop d w)" "p' = p"
          by (auto simp: step.simps)
        from out nx done_kept
        have "errCh_out p' = pre @ (if ev p' = EvCancelled then [ctx_Err w' (ctx p')] else []) @ post"
          by (simp add: Stop_Err_keep)
        moreover from rcv nx CallStop have "er_received (r @ [a]) = pre @ post @ er_held (er p') @ er_lost (er p')"
          by (simp add: er_received_snoc)
        ultimately show ?thesis by blast
      qed
      then show ?thesis unfolding I_def fst_conv snd_conv by blast
    qed
  qed
  then show ?thesis unfolding I_def fst_conv snd_conv .
qed

subsection \<open>The fixtures\<close>

lemma started_is_DetectContext:
  "DetectContext \<lparr>cancelFunc = None, sd_logger = 0\<rparr> (Some 0) \<lparr>contexts = [None], logged = []\<rparr>
     = Inr started"
  by (simp add: DetectContext_def started_def Println_def)

lemma fixtures_classified:
  "isTruncated droppedMessages = Inr True" "isTruncated cpuMetric = Inr False"
  "closePolicyViolated policyClose = Inr True" "closePolicyViolated nilClose = Inl NilDereference"
  by (simp_all add: isTruncated_def droppedMessages_def cpuMetric_def policyClose_def nilClose_def
      GetEventType_def GetName_def GetOrigin_def closePolicyViolated_def ClosePolicyViolation_def)

lemma closePolicyViolated_other:
  "closePolicyViolated None = Inr False" "closePolicyViolated (Some (ErrorString msg)) = Inr False"
  "closePolicyViolated (Some (ContextError c)) = Inr False"
  by (simp_all add: closePolicyViolated_def)

lemma fixtures_truncated: "truncated droppedMessages" "\<not> truncated cpuMetric"
  by (simp_all add: truncated_def fixtures_classified)

lemma fixtures_violation: "policyViolation policyClose" "\<not> policyViolation (Some (ErrorString msg))"
  by (simp_all add: policyViolation_def fixtures_classified closePolicyViolated_other)

lemmas run_simps = step.simps crashed_def started_def fixtures_classified fixtures_truncated
  closePolicyViolated_other

lemma reached_ErCtxErr_alive:
  assumes start: "DetectContext sd (Some i) w0 = Inr s0"
    and run: "exec run s0 = Some (w, p)"
    and pc: "er p = ErCtxErr"
  shows "\<not> crashed p"
proof -
  from er_history [OF start run] pc have "\<not> errCh_closed p" by simp
  with ev_history [OF start run] have "\<forall>pn. ev p \<noteq> EvPanicked pn" by auto
  with pc show ?thesis by (simp add: crashed_def split: ev_pc.splits)
qed

section \<open>The relay\<close>

text \<open>
  C1, as stated, fails. With the scope not done, the error goroutine receives an error
  value that holds a \<open>nil\<close> \<open>*websocket.CloseError\<close>: the type switch matches it, \<open>t.Code\<close>
  panics, and the error is never delivered on the error output; since the panic ends the
  process, a value metric received by the event goroutine is never delivered either.
\<close>

theorem nil_close_error_stops_relay:
  "exec [EvRecv cpuMetric, ErRecv nilClose] started
     = Some (\<lparr>contexts = [None], logged = [(0, ''[INFO] Start detecting slowConsumerAlert event'')]\<rparr>,
             \<lparr>ctx = 0, plogger = 0, ev = EvSelect cpuMetric, er = ErPanicked NilDereference,
              eventCh_closed = False, errCh_closed = False,
              eventCh_out = [], errCh_out = [], detectCh_out = []\<rparr>)
   \<and> exec [EvRecv cpuMetric, ErRecv nilClose, ErForwarded] started = None
   \<and> exec [EvRecv cpuMetric, ErRecv nilClose, EvForwarded] started = None"
  by (simp add: run_simps)

text \<open>
  C1, amended. In every run of a started pipeline whose scope is not done and in which
  no error received holds a \<open>nil\<close> \<open>*websocket.CloseError\<close>, each stream's output is its
  input, unmodified and in order: the envelopes received from the raw event channel are
  exactly the envelopes delivered on the event output followed by the one the event
  goroutine still holds, if any, and likewise for the errors; neither goroutine has
  panicked, and a goroutine that holds an item at its \<open>select\<close> can deliver it. Once a
  goroutine has seen its raw channel closed it holds nothing, its output channel is
  closed, and the output equals the input.
\<close>

theorem relay_unmodified_in_order:
  assumes start: "DetectContext sd (Some i) w0 = Inr s0"
    and run: "exec run s0 = Some (w, p)"
    and live: "\<not> ctx_Done w (ctx p)"
    and sound: "Some (CloseError None) \<notin> set (er_received run)"
  shows "ev_received run = eventCh_out p @ ev_held (ev p)
       \<and> er_received run = errCh_out p @ er_held (er p)
       \<and> length (ev_held (ev p)) \<le> 1 \<and> length (er_held (er p)) \<le> 1
       \<and> (ev p = EvDrained \<longrightarrow> eventCh_closed p \<and> ev_received run = eventCh_out p)
       \<and> (er p = ErDrained \<longrightarrow> errCh_closed p \<and> er_received run = errCh_out p)
       \<and> \<not> crashed p
       \<and> (ev p = EvSelect e \<longrightarrow>
            exec [EvForwarded] (w, p)
              = Some (w, p\<lparr>ev := EvRange, eventCh_out := eventCh_out p @ [e]\<rparr>))
       \<and> (er p = ErSelect err \<longrightarrow>
            exec [ErForwarded] (w, p)
              = Some (w, p\<lparr>er := ErRange, errCh_out := errCh_out p @ [err]\<rparr>))"
proof -
  note ev = ev_history [OF start run] and er = er_history [OF start run]
  from ev live have going: "ev p \<noteq> EvCtxErr" "ev p \<noteq> EvCancelled"
      "\<forall>pn. ev p \<noteq> EvPanicked pn"
    by auto
  with ev have a: "ev_received run = eventCh_out p @ ev_held (ev p)"
    by simp
  from er sound have whole: "\<forall>pn. er p \<noteq> ErPanicked pn"
    by blast
  then have lost: "er_lost (er p) = []"
    by (simp add: er_lost_def split: er_pc.splits)
  from going whole have alive: "\<not> crashed p"
    by (simp add: crashed_def split: ev_pc.splits er_pc.splits)
  from ev going have "count_list run EvCtxErrTaken = 0" by simp
  then have no_ev: "EvCtxErrTaken \<notin> set run" by (simp add: count_list_0_iff)
  from er live have no_er: "ErSawDone \<notin> set run" by auto
  from er no_ev no_er lost have b: "er_received run = errCh_out p @ er_held (er p)"
    by simp
  have c: "length (ev_held (ev p)) \<le> 1" "length (er_held (er p)) \<le> 1"
    by (simp_all add: ev_held_def er_held_def split: ev_pc.splits er_pc.splits)
  from a ev have d: "ev p = EvDrained \<longrightarrow> eventCh_closed p \<and> ev_received run = eventCh_out p"
    by (simp add: ev_held_def)
  from b er have e: "er p = ErDrained \<longrightarrow> errCh_closed p \<and> er_received run = errCh_out p"
    by (simp add: er_held_def)
  from alive have f: "ev p = EvSelect e \<longrightarrow>
            exec [EvForwarded] (w, p)
              = Some (w, p\<lparr>ev := EvRange, eventCh_out := eventCh_out p @ [e]\<rparr>)"
    by (simp add: step.simps)
  from alive have g: "er p = ErSelect err \<longrightarrow>
            exec [ErForwarded] (w, p)
              = Some (w, p\<lparr>er := ErRange, errCh_out := errCh_out p @ [err]\<rparr>)"
    by (simp add: step.simps)
  from a b c d e alive f g show ?thesis by blast
qed

theorem relay_unmodified_in_order_witness:
  "exec [EvRecv droppedMessages, ErRecv (Some (ErrorString ''EOF'')), EvAlertTaken, EvForwarded,
         EvRecv cpuMetric, ErForwarded, EvForwarded, EvInputClosed, ErInputClosed] started
     = Some (\<lparr>contexts = [None], logged = [(0, ''[INFO] Start detecting slowConsumerAlert event'')]\<rparr>,
             \<lparr>ctx = 0, plogger = 0, ev = EvDrained, er = ErDrained,
              eventCh_closed = True, errCh_closed = True,
              eventCh_out = [droppedMessages, cpuMetric],
              errCh_out = [Some (ErrorString ''EOF'')],
              detectCh_out = [truncatedAlert]\<rparr>)
   \<and> ev_received [EvRecv droppedMessages, ErRecv (Some (ErrorString ''EOF'')), EvAlertTaken, EvForwarded,
         EvRecv cpuMetric, ErForwarded, EvForwarded, EvInputClosed, ErInputClosed]
       = [droppedMessages, cpuMetric]
   \<and> er_received [EvRecv droppedMessages, ErRecv (Some (ErrorString ''EOF'')), EvAlertTaken, EvForwarded,
         EvRecv cpuMetric, ErForwarded, EvForwarded, EvInputClosed, ErInputClosed]
       = [Some (ErrorString ''EOF'')]"
proof -
  let ?run = "[EvRecv droppedMessages, ErRecv (Some (ErrorString ''EOF'')), EvAlertTaken, EvForwarded,
         EvRecv cpuMetric, ErForwarded, EvForwarded, EvInputClosed, ErInputClosed]"
  let ?w = "\<lparr>contexts = [None], logged = [(0, ''[INFO] Start detecting slowConsumerAlert event'')]\<rparr>"
  let ?p = "\<lparr>ctx = 0, plogger = 0, ev = EvDrained, er = ErDrained,
              eventCh_closed = True, errCh_closed = True,
              eventCh_out = [droppedMessages, cpuMetric],
              errCh_out = [Some (ErrorString ''EOF'')],
              detectCh_out = [truncatedAlert]\<rparr>"
  have run: "exec ?run started = Some (?w, ?p)"
    by (simp add: run_simps)
  have live: "\<not> ctx_Done ?w (ctx ?p)"
    by (simp add: ctx_Done_def ctx_Err_def)
  have sound: "Some (CloseError None) \<notin> set (er_received ?run)"
    by (simp add: er_received_def)
  from relay_unmodified_in_order [OF started_is_DetectContext run live sound] run
  show ?thesis by (simp add: ev_held_def er_held_def)
qed

text \<open>
  C2, as stated, fails: the dropped-messages counter is received, its alert is taken, the
  scope is cancelled, and the \<open>select\<close> takes the \<open>ctx.Done()\<close> case. The event output
  channel is closed without the envelope ever having been delivered on it.
\<close>

theorem alerted_envelope_dropped_by_cancellation:
  "isTruncated droppedMessages = Inr True
   \<and> exec [EvRecv droppedMessages, EvAlertTaken, CtxEnd 0 Canceled, EvSawDone, EvCtxErrTaken] started
     = Some (\<lparr>contexts = [Some Canceled],
              logged = [(0, ''[INFO] Start detecting slowConsumerAlert event''),
                        (0, ''[INFO] Canceled parent context: closing event channel'')]\<rparr>,
             \<lparr>ctx = 0, plogger = 0, ev = EvCancelled, er = ErRange,
              eventCh_closed = True, errCh_closed = False,
              eventCh_out = [], errCh_out = [Some (ContextError Canceled)],
              detectCh_out = [truncatedAlert]\<rparr>)"
  by (simp add: run_simps Println_def ctx_Done_def ctx_Err_def finish_def)

text \<open>
  C2, amended. \<open>isTruncated\<close> holds exactly of an envelope whose event type is
  \<open>CounterEvent\<close>, whose counter name is "TruncatingBuffer.DroppedMessages" and whose
  origin is "doppler", and the event goroutine goes to its alert send exactly for such an
  envelope. In every run the alerts taken from the event goroutine, plus the one still
  pending, number the matching envelopes received: one alert each. As long as the
  goroutine has not taken the cancellation branch of its \<open>select\<close>, every envelope
  received, matching or not, has been delivered on the event output in order or is the
  one the goroutine holds; the cancellation branch drops the held envelope only.
\<close>

theorem event_alert_iff_signature:
  assumes start: "DetectContext sd (Some i) w0 = Inr s0"
    and run: "exec run s0 = Some (w, p)"
  shows "isTruncated e =
           Inr (GetEventType e = Envelope_CounterEvent
                \<and> GetName (case e of None \<Rightarrow> None | Some m \<Rightarrow> CounterEvent m)
                     = ''TruncatingBuffer.DroppedMessages''
                \<and> GetOrigin e = ''doppler'')
       \<and> step (EvRecv e) (w, p\<lparr>ev := EvRange\<rparr>)
           = Some (w, p\<lparr>ev := (if truncated e then EvAlert e else EvSelect e)\<rparr>)
       \<and> count_list (detectCh_out p) truncatedAlert + (case ev p of EvAlert x \<Rightarrow> 1 | _ \<Rightarrow> 0)
           = length (filter truncated (ev_received run))
       \<and> (EvSawDone \<notin> set run \<longrightarrow> ev_received run = eventCh_out p @ ev_held (ev p))
       \<and> (EvSawDone \<in> set run \<longrightarrow> butlast (ev_received run) = eventCh_out p)"
proof -
  note ev = ev_history [OF start run]
  have a: "step (EvRecv e) (w, p\<lparr>ev := EvRange\<rparr>)
           = Some (w, p\<lparr>ev := (if truncated e then EvAlert e else EvSelect e)\<rparr>)"
    by (simp add: step_EvRecv)
  from ev have b: "count_list (detectCh_out p) truncatedAlert + (case ev p of EvAlert x \<Rightarrow> 1 | _ \<Rightarrow> 0)
           = length (filter truncated (ev_received run))"
    by (cases "ev p") auto
  from ev have c: "EvSawDone \<notin> set run \<longrightarrow> ev_received run = eventCh_out p @ ev_held (ev p)"
    by auto
  from ev have d: "EvSawDone \<in> set run \<longrightarrow> butlast (ev_received run) = eventCh_out p"
    by auto
  from a b c d show ?thesis
    by (simp add: isTruncated_signature)
qed

theorem event_alert_iff_signature_witness:
  "exec [EvRecv droppedMessages, EvAlertTaken, EvForwarded, EvRecv cpuMetric, EvForwarded] started
     = Some (\<lparr>contexts = [None], logged = [(0, ''[INFO] Start detecting slowConsumerAlert event'')]\<rparr>,
             \<lparr>ctx = 0, plogger = 0, ev = EvRange, er = ErRange,
              eventCh_closed = False, errCh_closed = False,
              eventCh_out = [droppedMessages, cpuMetric], errCh_out = [],
              detectCh_out = [truncatedAlert]\<rparr>)
   \<and> length (filter truncated
        (ev_received [EvRecv droppedMessages, EvAlertTaken, EvForwarded, EvRecv cpuMetric, EvForwarded])) = 1
   \<and> ev_received [EvRecv droppedMessages, EvAlertTaken, EvForwarded, EvRecv cpuMetric, EvForwarded]
       = [droppedMessages, cpuMetric]"
proof -
  let ?run = "[EvRecv droppedMessages, EvAlertTaken, EvForwarded, EvRecv cpuMetric, EvForwarded]"
  let ?w = "\<lparr>contexts = [None], logged = [(0, ''[INFO] Start detecting slowConsumerAlert event'')]\<rparr>"
  let ?p = "\<lparr>ctx = 0, plogger = 0, ev = EvRange, er = ErRange,
              eventCh_closed = False, errCh_closed = False,
              eventCh_out = [droppedMessages, cpuMetric], errCh_out = [],
              detectCh_out = [truncatedAlert]\<rparr>"
  have run: "exec ?run started = Some (?w, ?p)"
    by (simp add: run_simps)
  from event_alert_iff_signature [OF started_is_DetectContext run, of droppedMessages]
  have "length (filter truncated (ev_received ?run)) = 1
      \<and> ev_received ?run = [droppedMessages, cpuMetric]"
    by (simp add: ev_held_def)
  with run show ?thesis by blast
qed

text \<open>
  C3, as stated, fails in the same way: a close error with code 1008 is received, its
  alert is taken, the scope is cancelled and the \<open>select\<close> takes the \<open>ctx.Done()\<close> case.
  The error output channel carries the cancellation error only and is closed.
\<close>

theorem alerted_error_dropped_by_cancellation:
  "closePolicyViolated policyClose = Inr True
   \<and> exec [ErRecv policyClose, ErAlertTaken, CtxEnd 0 Canceled, ErSawDone, ErCtxErrTaken] started
     = Some (\<lparr>contexts = [Some Canceled],
              logged = [(0, ''[INFO] Start detecting slowConsumerAlert event''),
                        (0, ''[INFO] Canceled parent context: closing error channel'')]\<rparr>,
             \<lparr>ctx = 0, plogger = 0, ev = EvRange, er = ErCancelled,
              eventCh_closed = False, errCh_closed = True,
              eventCh_out = [], errCh_out = [Some (ContextError Canceled)],
              detectCh_out = [policyAlert]\<rparr>)"
  by (simp add: run_simps Println_def ctx_Done_def ctx_Err_def finish_def)

text \<open>
  C3, amended. The type switch asks for an alert exactly for a websocket close error
  whose code is 1008, and it panics on nothing but a \<open>nil\<close> close-error pointer; from its
  \<open>range\<close> loop the error goroutine goes to its alert send exactly for a matching error.
  In every run the alerts taken from the error goroutine, plus the one still pending,
  number the matching errors received: one alert each. As long as the error goroutine
  has not taken the cancellation branch of its \<open>select\<close>, every error received, matching
  or not, has been delivered on the error output in order, or is the one the goroutine
  holds, or is the \<open>nil\<close> close-error pointer the goroutine panicked on; the only other
  value the error output can carry by then is the event goroutine's cancellation error.
\<close>

theorem error_alert_iff_signature:
  assumes start: "DetectContext sd (Some i) w0 = Inr s0"
    and run: "exec run s0 = Some (w, p)"
  shows "(closePolicyViolated err = Inr True
            \<longleftrightarrow> (\<exists>c. err = Some (CloseError (Some c)) \<and> Code c = 1008))
       \<and> (closePolicyViolated err = Inr False
            \<longleftrightarrow> err \<noteq> Some (CloseError None)
                \<and> \<not> (\<exists>c. err = Some (CloseError (Some c)) \<and> Code c = 1008))
       \<and> (closePolicyViolated err = Inl NilDereference \<longleftrightarrow> err = Some (CloseError None))
       \<and> step (ErRecv err) (w, p\<lparr>er := ErRange\<rparr>)
           = Some (w, p\<lparr>er := (case closePolicyViolated err of
                                  Inl pn \<Rightarrow> ErPanicked pn
                                | Inr b \<Rightarrow> if b then ErAlert err else ErSelect err)\<rparr>)
       \<and> count_list (detectCh_out p) policyAlert + (case er p of ErAlert x \<Rightarrow> 1 | _ \<Rightarrow> 0)
           = length (filter policyViolation (er_received run))
       \<and> (ErSawDone \<notin> set run \<longrightarrow>
            (\<exists>pre post.
               errCh_out p = pre @ (if ev p = EvCancelled then [ctx_Err w (ctx p)] else []) @ post
             \<and> er_received run = pre @ post @ er_held (er p) @ er_lost (er p)))"
proof -
  note er = er_history [OF start run]
  have sig: "closePolicyViolated err = Inr True
            \<longleftrightarrow> (\<exists>c. err = Some (CloseError (Some c)) \<and> Code c = 1008)"
    using policyViolation_iff [of err] by (simp add: policyViolation_def)
  have nil: "closePolicyViolated err = Inl NilDereference \<longleftrightarrow> err = Some (CloseError None)"
    by (simp add: closePolicyViolated_cases)
  have other: "closePolicyViolated err = Inr False
            \<longleftrightarrow> err \<noteq> Some (CloseError None)
                \<and> \<not> (\<exists>c. err = Some (CloseError (Some c)) \<and> Code c = 1008)"
    using policyViolation_iff [of err] by (simp add: closePolicyViolated_cases)
  have a: "step (ErRecv err) (w, p\<lparr>er := ErRange\<rparr>)
           = Some (w, p\<lparr>er := (case closePolicyViolated err of
                                  Inl pn \<Rightarrow> ErPanicked pn
                                | Inr b \<Rightarrow> if b then ErAlert err else ErSelect err)\<rparr>)"
    by (simp add: step_ErRecv closePolicyViolated_cases)
  from er have b: "count_list (detectCh_out p) policyAlert + (case er p of ErAlert x \<Rightarrow> 1 | _ \<Rightarrow> 0)
           = length (filter policyViolation (er_received run))"
    by (cases "er p") auto
  from sig nil other a b er_interleaved [OF start run] show ?thesis
    by blast
qed

theorem error_alert_iff_signature_witness:
  "exec [ErRecv policyClose, ErAlertTaken, ErForwarded] started
     = Some (\<lparr>contexts = [None], logged = [(0, ''[INFO] Start detecting slowConsumerAlert event'')]\<rparr>,
             \<lparr>ctx = 0, plogger = 0, ev = EvRange, er = ErRange,
              eventCh_closed = False, errCh_closed = False,
              eventCh_out = [], errCh_out = [policyClose],
              detectCh_out = [policyAlert]\<rparr>)
   \<and> length (filter policyViolation (er_received [ErRecv policyClose, ErAlertTaken, ErForwarded])) = 1
   \<and> er_received [ErRecv policyClose, ErAlertTaken, ErForwarded] = [policyClose]"
proof -
  let ?run = "[ErRecv policyClose, ErAlertTaken, ErForwarded]"
  let ?w = "\<lparr>contexts = [None], logged = [(0, ''[INFO] Start detecting slowConsumerAlert event'')]\<rparr>"
  let ?p = "\<lparr>ctx = 0, plogger = 0, ev = EvRange, er = ErRange,
              eventCh_closed = False, errCh_closed = False,
              eventCh_out = [], errCh_out = [policyClose],
              detectCh_out = [policyAlert]\<rparr>"
  have run: "exec ?run started = Some (?w, ?p)"
    by (simp add: run_simps)
  from error_alert_iff_signature [OF started_is_DetectContext run, of policyClose]
  have "length (filter policyViolation (er_received ?run)) = 1
      \<and> er_received ?run = [policyClose]"
    by (auto simp: er_held_def er_lost_def)
  with run show ?thesis by blast
qed

section \<open>Cancellation\<close>

text \<open>
  C4, as stated, fails. With both goroutines waiting in their \<open>range\<close> loops the scope is
  cancelled: neither goroutine can take a \<open>ctx.Done()\<close> case there, and when the raw
  channels are then closed both goroutines close their outputs and exit without any
  cancellation error on the error output.
\<close>

theorem cancelled_loops_exit_without_cancellation_error:
  "exec [CtxEnd 0 Canceled, EvSawDone] started = None
   \<and> exec [CtxEnd 0 Canceled, ErSawDone] started = None
   \<and> exec [CtxEnd 0 Canceled, EvInputClosed, ErInputClosed] started
     = Some (\<lparr>contexts = [Some Canceled],
              logged = [(0, ''[INFO] Start detecting slowConsumerAlert event'')]\<rparr>,
             \<lparr>ctx = 0, plogger = 0, ev = EvDrained, er = ErDrained,
              eventCh_closed = True, errCh_closed = True,
              eventCh_out = [], errCh_out = [], detectCh_out = []\<rparr>)"
  by (simp add: run_simps Println_def ctx_Done_def ctx_Err_def finish_def)

text \<open>
  C4, amended. A goroutine observes cancellation only in its forwarding \<open>select\<close>, that
  is while it holds an item: waiting in \<open>range\<close> or in an alert send it cannot take the
  \<open>ctx.Done()\<close> case, and when its raw channel is closed it closes its output and exits
  without a cancellation error. In a process that has not panicked a goroutine at its \<open>select\<close> with
  the scope done can take that case; it then drops the held item and has one send left,
  of the scope's termination error on the error output. The error goroutine's send can
  always be taken. The event goroutine's send can be taken while the error output is
  still open and the process has not panicked. When the send is taken the goroutine has sent
  exactly one cancellation error, its output channel is closed and it has exited. In
  every run a goroutine has sent one cancellation error if it exited through the
  cancellation branch and none otherwise, its output channel is closed exactly when it
  has exited, and a goroutine that took the cancellation branch did so with the scope
  done.
\<close>

theorem cancellation_branch:
  assumes start: "DetectContext sd (Some i) w0 = Inr s0"
    and run: "exec run s0 = Some (w, p)"
  shows "(EvSawDone \<in> set run \<longleftrightarrow>
            ev p = EvCtxErr \<or> ev p = EvCancelled \<or> ev p = EvPanicked SendOnClosedChannel)
       \<and> (ErSawDone \<in> set run \<longleftrightarrow> er p = ErCtxErr \<or> er p = ErCancelled)
       \<and> (EvSawDone \<in> set run \<or> ErSawDone \<in> set run \<longrightarrow> ctx_Err w (ctx p) \<noteq> None)
       \<and> count_list run EvCtxErrTaken = (if ev p = EvCancelled then 1 else 0)
       \<and> count_list run ErCtxErrTaken = (if er p = ErCancelled then 1 else 0)
       \<and> (eventCh_closed p \<longleftrightarrow> ev p = EvDrained \<or> ev p = EvCancelled)
       \<and> (errCh_closed p \<longleftrightarrow> er p = ErDrained \<or> er p = ErCancelled)
       \<and> (ev p = EvRange \<or> ev p = EvAlert e \<longrightarrow> step EvSawDone (w, p) = None)
       \<and> (er p = ErRange \<or> er p = ErAlert err \<longrightarrow> step ErSawDone (w, p) = None)
       \<and> (ev p = EvRange \<and> \<not> crashed p \<longrightarrow>
            exec [EvInputClosed] (w, p) = Some (w, p\<lparr>ev := EvDrained, eventCh_closed := True\<rparr>))
       \<and> (er p = ErRange \<and> \<not> crashed p \<longrightarrow>
            exec [ErInputClosed] (w, p) = Some (w, p\<lparr>er := ErDrained, errCh_closed := True\<rparr>))
       \<and> (ev p = EvSelect e \<and> ctx_Done w (ctx p) \<and> \<not> crashed p \<longrightarrow>
            exec [EvSawDone] (w, p)
              = Some (Println (plogger p) ''[INFO] Canceled parent context: closing event channel'' w,
                      p\<lparr>ev := EvCtxErr\<rparr>))
       \<and> (er p = ErSelect err \<and> ctx_Done w (ctx p) \<and> \<not> crashed p \<longrightarrow>
            exec [ErSawDone] (w, p)
              = Some (Println (plogger p) ''[INFO] Canceled parent context: closing error channel'' w,
                      p\<lparr>er := ErCtxErr\<rparr>))
       \<and> (er p = ErCtxErr \<longrightarrow>
            exec [ErCtxErrTaken] (w, p)
              = Some (w, p\<lparr>er := ErCancelled, errCh_closed := True,
                            errCh_out := errCh_out p @ [ctx_Err w (ctx p)]\<rparr>))
       \<and> (ev p = EvCtxErr \<and> \<not> errCh_closed p \<and> \<not> crashed p \<longrightarrow>
            exec [EvCtxErrTaken] (w, p)
              = Some (w, p\<lparr>ev := EvCancelled, eventCh_closed := True,
                            errCh_out := errCh_out p @ [ctx_Err w (ctx p)]\<rparr>))"
proof -
  note ev = ev_history [OF start run] and er = er_history [OF start run]
  from ev have a1: "EvSawDone \<in> set run \<longleftrightarrow>
            ev p = EvCtxErr \<or> ev p = EvCancelled \<or> ev p = EvPanicked SendOnClosedChannel"
    by blast
  from er have a2: "ErSawDone \<in> set run \<longleftrightarrow> er p = ErCtxErr \<or> er p = ErCancelled"
    by blast
  from ev a1 have "EvSawDone \<in> set run \<longrightarrow> ctx_Done w (ctx p)"
    by (simp split: if_splits)
  moreover from er a2 have "ErSawDone \<in> set run \<longrightarrow> ctx_Done w (ctx p)"
    by blast
  ultimately have a3: "EvSawDone \<in> set run \<or> ErSawDone \<in> set run \<longrightarrow> ctx_Err w (ctx p) \<noteq> None"
    by (auto simp: ctx_Done_def)
  from ev have a: "count_list run EvCtxErrTaken = (if ev p = EvCancelled then 1 else 0)"
    and c: "eventCh_closed p \<longleftrightarrow> ev p = EvDrained \<or> ev p = EvCancelled"
    by (simp_all split: if_splits)
  from er have b: "count_list run ErCtxErrTaken = (if er p = ErCancelled then 1 else 0)"
    and d: "errCh_closed p \<longleftrightarrow> er p = ErDrained \<or> er p = ErCancelled"
    by simp_all
  have f: "ev p = EvRange \<or> ev p = EvAlert e \<longrightarrow> step EvSawDone (w, p) = None"
    by (auto simp: step.simps)
  have g: "er p = ErRange \<or> er p = ErAlert err \<longrightarrow> step ErSawDone (w, p) = None"
    by (auto simp: step.simps)
  have f': "ev p = EvRange \<and> \<not> crashed p \<longrightarrow>
            exec [EvInputClosed] (w, p) = Some (w, p\<lparr>ev := EvDrained, eventCh_closed := True\<rparr>)"
    by (simp add: step.simps)
  have g': "er p = ErRange \<and> \<not> crashed p \<longrightarrow>
            exec [ErInputClosed] (w, p) = Some (w, p\<lparr>er := ErDrained, errCh_closed := True\<rparr>)"
    by (simp add: step.simps)
  have h: "ev p = EvSelect e \<and> ctx_Done w (ctx p) \<and> \<not> crashed p \<longrightarrow>
            exec [EvSawDone] (w, p)
              = Some (Println (plogger p) ''[INFO] Canceled parent context: closing event channel'' w,
                      p\<lparr>ev := EvCtxErr\<rparr>)"
    by (simp add: step.simps)
  have k: "er p = ErSelect err \<and> ctx_Done w (ctx p) \<and> \<not> crashed p \<longrightarrow>
            exec [ErSawDone] (w, p)
              = Some (Println (plogger p) ''[INFO] Canceled parent context: closing error channel'' w,
                      p\<lparr>er := ErCtxErr\<rparr>)"
    by (simp add: step.simps)
  have l: "er p = ErCtxErr \<longrightarrow>
            exec [ErCtxErrTaken] (w, p)
              = Some (w, p\<lparr>er := ErCancelled, errCh_closed := True,
                            errCh_out := errCh_out p @ [ctx_Err w (ctx p)]\<rparr>)"
    using reached_ErCtxErr_alive [OF start run] by (simp add: step.simps)
  have m: "ev p = EvCtxErr \<and> \<not> errCh_closed p \<and> \<not> crashed p \<longrightarrow>
            exec [EvCtxErrTaken] (w, p)
              = Some (w, p\<lparr>ev := EvCancelled, eventCh_closed := True,
                            errCh_out := errCh_out p @ [ctx_Err w (ctx p)]\<rparr>)"
    by (simp add: step.simps)
  from a1 a2 a3 a b c d f g f' g' h k l m show ?thesis by blast
qed

theorem cancellation_branch_witness:
  "exec [EvRecv cpuMetric, ErRecv (Some (ErrorString ''EOF'')), CtxEnd 0 Canceled, ErSawDone] started
     = Some (\<lparr>contexts = [Some Canceled],
              logged = [(0, ''[INFO] Start detecting slowConsumerAlert event''),
                        (0, ''[INFO] Canceled parent context: closing error channel'')]\<rparr>,
             \<lparr>ctx = 0, plogger = 0, ev = EvSelect cpuMetric, er = ErCtxErr,
              eventCh_closed = False, errCh_closed = False,
              eventCh_out = [], errCh_out = [], detectCh_out = []\<rparr>)
   \<and> exec [EvSawDone]
        (\<lparr>contexts = [Some Canceled],
          logged = [(0, ''[INFO] Start detecting slowConsumerAlert event''),
                    (0, ''[INFO] Canceled parent context: closing error channel'')]\<rparr>,
         \<lparr>ctx = 0, plogger = 0, ev = EvSelect cpuMetric, er = ErCtxErr,
          eventCh_closed = False, errCh_closed = False,
          eventCh_out = [], errCh_out = [], detectCh_out = []\<rparr>)
     = Some (\<lparr>contexts = [Some Canceled],
              logged = [(0, ''[INFO] Start detecting slowConsumerAlert event''),
                        (0, ''[INFO] Canceled parent context: closing error channel''),
                        (0, ''[INFO] Canceled parent context: closing event channel'')]\<rparr>,
             \<lparr>ctx = 0, plogger = 0, ev = EvCtxErr, er = ErCtxErr,
              eventCh_closed = False, errCh_closed = False,
              eventCh_out = [], errCh_out = [], detectCh_out = []\<rparr>)
   \<and> exec [ErCtxErrTaken]
        (\<lparr>contexts = [Some Canceled],
          logged = [(0, ''[INFO] Start detecting slowConsumerAlert event''),
                    (0, ''[INFO] Canceled parent context: closing error channel'')]\<rparr>,
         \<lparr>ctx = 0, plogger = 0, ev = EvSelect cpuMetric, er = ErCtxErr,
          eventCh_closed = False, errCh_closed = False,
          eventCh_out = [], errCh_out = [], detectCh_out = []\<rparr>)
     = Some (\<lparr>contexts = [Some Canceled],
              logged = [(0, ''[INFO] Start detecting slowConsumerAlert event''),
                        (0, ''[INFO] Canceled parent context: closing error channel'')]\<rparr>,
             \<lparr>ctx = 0, plogger = 0, ev = EvSelect cpuMetric, er = ErCancelled,
              eventCh_closed = False, errCh_closed = True,
              eventCh_out = [], errCh_out = [Some (ContextError Canceled)], detectCh_out = []\<rparr>)"
proof -
  let ?run = "[EvRecv cpuMetric, ErRecv (Some (ErrorString ''EOF'')), CtxEnd 0 Canceled, ErSawDone]"
  let ?w = "\<lparr>contexts = [Some Canceled],
              logged = [(0, ''[INFO] Start detecting slowConsumerAlert event''),
                        (0, ''[INFO] Canceled parent context: closing error channel'')]\<rparr>"
  let ?p = "\<lparr>ctx = 0, plogger = 0, ev = EvSelect cpuMetric, er = ErCtxErr,
              eventCh_closed = False, errCh_closed = False,
              eventCh_out = [], errCh_out = [], detectCh_out = []\<rparr>"
  have run: "exec ?run started = Some (?w, ?p)"
    by (simp add: run_simps finish_def ctx_Done_def ctx_Err_def Println_def)
  from cancellation_branch [OF started_is_DetectContext run, of cpuMetric "Some (ErrorString ''EOF'')"] run
  show ?thesis
    by (simp add: ctx_Done_def ctx_Err_def crashed_def Println_def)
qed

text \<open>
  C5, as stated, fails. After the dropped-messages counter is received the event
  goroutine waits in its alert send; delivering the envelope on the event output is not
  enabled there, and neither is the cancellation branch. The same holds for a close error
  with code 1008 in the error goroutine.
\<close>

theorem pending_alert_blocks_forward:
  "exec [EvRecv droppedMessages] started
     = Some (\<lparr>contexts = [None], logged = [(0, ''[INFO] Start detecting slowConsumerAlert event'')]\<rparr>,
             \<lparr>ctx = 0, plogger = 0, ev = EvAlert droppedMessages, er = ErRange,
              eventCh_closed = False, errCh_closed = False,
              eventCh_out = [], errCh_out = [], detectCh_out = []\<rparr>)
   \<and> exec [EvRecv droppedMessages, EvForwarded] started = None
   \<and> exec [EvRecv droppedMessages, CtxEnd 0 Canceled, EvSawDone] started = None
   \<and> exec [ErRecv policyClose] started
     = Some (\<lparr>contexts = [None], logged = [(0, ''[INFO] Start detecting slowConsumerAlert event'')]\<rparr>,
             \<lparr>ctx = 0, plogger = 0, ev = EvRange, er = ErAlert policyClose,
              eventCh_closed = False, errCh_closed = False,
              eventCh_out = [], errCh_out = [], detectCh_out = []\<rparr>)
   \<and> exec [ErRecv policyClose, ErForwarded] started = None
   \<and> exec [ErRecv policyClose, CtxEnd 0 Canceled, ErSawDone] started = None"
  by (simp add: run_simps finish_def)

text \<open>
  C5, amended. For an envelope or error that triggers an alert, the alert send comes
  first and is not raced against anything: while no reader takes the alert, the item is
  neither forwarded nor dropped and cancellation is not observed; when the alert is
  taken, the goroutine goes on to its forwarding \<open>select\<close> with the same item. So in
  every run the matching items delivered on an output never outnumber the alerts of
  their kind already taken.
\<close>

theorem alert_precedes_forward:
  assumes start: "DetectContext sd (Some i) w0 = Inr s0"
    and run: "exec run s0 = Some (w, p)"
  shows "(ev p = EvAlert e \<longrightarrow>
            truncated e \<and> step EvForwarded (w, p) = None \<and> step EvSawDone (w, p) = None
          \<and> step EvAlertTaken (w, p)
              = Some (w, p\<lparr>ev := EvSelect e, detectCh_out := detectCh_out p @ [truncatedAlert]\<rparr>))
       \<and> (er p = ErAlert err \<longrightarrow>
            policyViolation err \<and> step ErForwarded (w, p) = None \<and> step ErSawDone (w, p) = None
          \<and> step ErAlertTaken (w, p)
              = Some (w, p\<lparr>er := ErSelect err, detectCh_out := detectCh_out p @ [policyAlert]\<rparr>))
       \<and> length (filter truncated (eventCh_out p)) \<le> count_list (detectCh_out p) truncatedAlert
       \<and> length (filter policyViolation (errCh_out p)) \<le> count_list (detectCh_out p) policyAlert"
proof -
  note ev = ev_history [OF start run] and er = er_history [OF start run]
  from ev have a: "ev p = EvAlert e \<longrightarrow>
            truncated e \<and> step EvForwarded (w, p) = None \<and> step EvSawDone (w, p) = None
          \<and> step EvAlertTaken (w, p)
              = Some (w, p\<lparr>ev := EvSelect e, detectCh_out := detectCh_out p @ [truncatedAlert]\<rparr>)"
    by (simp add: step.simps)
  from er have b: "er p = ErAlert err \<longrightarrow>
            policyViolation err \<and> step ErForwarded (w, p) = None \<and> step ErSawDone (w, p) = None
          \<and> step ErAlertTaken (w, p)
              = Some (w, p\<lparr>er := ErSelect err, detectCh_out := detectCh_out p @ [policyAlert]\<rparr>)"
    by (simp add: step.simps)
  from ev have c: "length (filter truncated (eventCh_out p)) \<le> count_list (detectCh_out p) truncatedAlert"
    by simp
  from er have d: "length (filter policyViolation (errCh_out p)) \<le> count_list (detectCh_out p) policyAlert"
    by simp
  from a b c d show ?thesis by blast
qed

theorem alert_precedes_forward_witness:
  "exec [EvRecv droppedMessages, ErRecv policyClose] started
     = Some (\<lparr>contexts = [None], logged = [(0, ''[INFO] Start detecting slowConsumerAlert event'')]\<rparr>,
             \<lparr>ctx = 0, plogger = 0, ev = EvAlert droppedMessages, er = ErAlert policyClose,
              eventCh_closed = False, errCh_closed = False,
              eventCh_out = [], errCh_out = [], detectCh_out = []\<rparr>)
   \<and> truncated droppedMessages
   \<and> step EvForwarded
        (\<lparr>contexts = [None], logged = [(0, ''[INFO] Start detecting slowConsumerAlert event'')]\<rparr>,
         \<lparr>ctx = 0, plogger = 0, ev = EvAlert droppedMessages, er = ErAlert policyClose,
          eventCh_closed = False, errCh_closed = False,
          eventCh_out = [], errCh_out = [], detectCh_out = []\<rparr>) = None
   \<and> step ErForwarded
        (\<lparr>contexts = [None], logged = [(0, ''[INFO] Start detecting slowConsumerAlert event'')]\<rparr>,
         \<lparr>ctx = 0, plogger = 0, ev = EvAlert droppedMessages, er = ErAlert policyClose,
          eventCh_closed = False, errCh_closed = False,
          eventCh_out = [], errCh_out = [], detectCh_out = []\<rparr>) = None
   \<and> step EvAlertTaken
        (\<lparr>contexts = [None], logged = [(0, ''[INFO] Start detecting slowConsumerAlert event'')]\<rparr>,
         \<lparr>ctx = 0, plogger = 0, ev = EvAlert droppedMessages, er = ErAlert policyClose,
          eventCh_closed = False, errCh_closed = False,
          eventCh_out = [], errCh_out = [], detectCh_out = []\<rparr>)
     = Some (\<lparr>contexts = [None], logged = [(0, ''[INFO] Start detecting slowConsumerAlert event'')]\<rparr>,
             \<lparr>ctx = 0, plogger = 0, ev = EvSelect droppedMessages, er = ErAlert policyClose,
              eventCh_closed = False, errCh_closed = False,
              eventCh_out = [], errCh_out = [], detectCh_out = [truncatedAlert]\<rparr>)"
proof -
  let ?run = "[EvRecv droppedMessages, ErRecv policyClose]"
  let ?w = "\<lparr>contexts = [None], logged = [(0, ''[INFO] Start detecting slowConsumerAlert event'')]\<rparr>"
  let ?p = "\<lparr>ctx = 0, plogger = 0, ev = EvAlert droppedMessages, er = ErAlert policyClose,
              eventCh_closed = False, errCh_closed = False,
              eventCh_out = [], errCh_out = [], detectCh_out = []\<rparr>"
  have run: "exec ?run started = Some (?w, ?p)"
    by (simp add: run_simps)
  from alert_precedes_forward [OF started_is_DetectContext run, of droppedMessages policyClose] run
  show ?thesis by simp
qed

section \<open>Construction and teardown\<close>

text \<open>
  C8. Constructing a raw consumer from a configuration whose \<open>DopplerAddr\<close>, \<open>Token\<close> or
  \<open>SubscriptionID\<close> is empty returns no consumer and a validation error whose message names
  the first such field, in that order; with all three non-empty it returns the consumer,
  holding the configuration's fields and no connection, and no error.
\<close>

theorem newRawConsumer_validation:
  "newRawConsumer (Some cfg) =
     (if DopplerAddr cfg = [] then Inr (None, Some (Errorf ''DopplerAddr must not be empty''))
      else if Token cfg = [] then Inr (None, Some (Errorf ''Token must not be empty''))
      else if SubscriptionID cfg = [] then Inr (None, Some (Errorf ''SubscriptionID must not be empty''))
      else Inr (Some \<lparr>connection = None, dopplerAddr = DopplerAddr cfg, token = Token cfg,
                      subscriptionID = SubscriptionID cfg, insecure = Insecure cfg,
                      debugPrinter = DebugPrinter cfg, logger = Logger cfg\<rparr>, None))"
  by (simp add: newRawConsumer_def validate_def Let_def)

theorem newRawConsumer_validation_witness:
  "newRawConsumer (Some \<lparr>DopplerAddr = ''wss://doppler.example.com'', Token = ''bearer t'',
       SubscriptionID = [], Insecure = False, DebugPrinter = None, Logger = 0\<rparr>)
     = Inr (None, Some (Errorf ''SubscriptionID must not be empty''))
   \<and> newRawConsumer (Some \<lparr>DopplerAddr = ''wss://doppler.example.com'', Token = ''bearer t'',
       SubscriptionID = ''sub'', Insecure = False, DebugPrinter = None, Logger = 0\<rparr>)
     = Inr (Some \<lparr>connection = None, dopplerAddr = ''wss://doppler.example.com'', token = ''bearer t'',
                      subscriptionID = ''sub'', insecure = False,
                      debugPrinter = None, logger = 0\<rparr>, None)"
  using newRawConsumer_validation [of "\<lparr>DopplerAddr = ''wss://doppler.example.com'', Token = ''bearer t'',
       SubscriptionID = [], Insecure = False, DebugPrinter = None, Logger = 0\<rparr>"]
    newRawConsumer_validation [of "\<lparr>DopplerAddr = ''wss://doppler.example.com'', Token = ''bearer t'',
       SubscriptionID = ''sub'', Insecure = False, DebugPrinter = None, Logger = 0\<rparr>"]
  by simp

text \<open>
  C7. \<open>consumer.Close\<close> calls the raw consumer's \<open>Close\<close> first. If that returns an error,
  the session's \<open>Close\<close> returns the raw consumer's result as it is and \<open>Stop\<close> is not
  called; otherwise it returns what \<open>Stop\<close> returns from the state the raw consumer left.
  With the package's own raw consumer and detector, the log shows the order: the raw
  consumer's line comes first, the detector's line follows exactly when the connection
  closed without error, and a failed close leaves every cancellation scope untouched.
\<close>

theorem consumer_Close_order:
  "(fst (rc w) \<noteq> None \<longrightarrow> consumer_Close rc st w = rc w)
   \<and> (fst (rc w) = None \<longrightarrow> consumer_Close rc st w = st (snd (rc w)))
   \<and> logged (snd (consumer_Close (rawConsumer_Close cc c) (Stop d) w0)) =
       logged w0 @ (logger c, ''[INFO] Stop consuming firehose events'') #
         (if fst (rawConsumer_Close cc c w0) = None
          then [(sd_logger d, ''[INFO] Stop detecting slowConsumerAlert event'')] else [])
   \<and> (fst (rawConsumer_Close cc c w0) \<noteq> None \<longrightarrow>
        fst (consumer_Close (rawConsumer_Close cc c) (Stop d) w0) = fst (rawConsumer_Close cc c w0)
      \<and> contexts (snd (consumer_Close (rawConsumer_Close cc c) (Stop d) w0)) = contexts w0)
   \<and> (fst (rawConsumer_Close cc c w0) = None \<longrightarrow>
        fst (consumer_Close (rawConsumer_Close cc c) (Stop d) w0)
          = fst (Stop d (snd (rawConsumer_Close cc c w0))))"
proof -
  have raw: "snd (rawConsumer_Close cc c w0) = Println (logger c) ''[INFO] Stop consuming firehose events'' w0"
    by (simp add: rawConsumer_Close_def Let_def split: option.splits)
  have stop_log: "logged (snd (Stop d v)) = logged v @ [(sd_logger d, ''[INFO] Stop detecting slowConsumerAlert event'')]" for v
    by (cases "cancelFunc d") (simp_all add: Stop_def Let_def Println_def cancel_def finish_def)
  show ?thesis
  proof (cases "fst (rawConsumer_Close cc c w0) = None")
    case True
    then show ?thesis
      by (simp add: consumer_Close_failed consumer_Close_closed raw stop_log Println_def)
  next
    case False
    then show ?thesis
      by (simp add: consumer_Close_failed consumer_Close_closed raw Println_def)
  qed
qed

theorem consumer_Close_order_witness:
  "consumer_Close
     (rawConsumer_Close (Some (ErrorString ''use of closed network connection''))
        \<lparr>connection = Some 0, dopplerAddr = ''wss://doppler'', token = ''t'', subscriptionID = ''s'',
         insecure = False, debugPrinter = None, logger = 1\<rparr>)
     (Stop \<lparr>cancelFunc = Some 0, sd_logger = 2\<rparr>)
     \<lparr>contexts = [None], logged = []\<rparr>
   = (Some (ErrorString ''use of closed network connection''),
      \<lparr>contexts = [None], logged = [(1, ''[INFO] Stop consuming firehose events'')]\<rparr>)
   \<and> consumer_Close
     (rawConsumer_Close None
        \<lparr>connection = Some 0, dopplerAddr = ''wss://doppler'', token = ''t'', subscriptionID = ''s'',
         insecure = False, debugPrinter = None, logger = 1\<rparr>)
     (Stop \<lparr>cancelFunc = Some 0, sd_logger = 2\<rparr>)
     \<lparr>contexts = [None], logged = []\<rparr>
   = (None,
      \<lparr>contexts = [Some Canceled],
       logged = [(1, ''[INFO] Stop consuming firehose events''),
                 (2, ''[INFO] Stop detecting slowConsumerAlert event'')]\<rparr>)"
  using consumer_Close_order
    [where rc = "rawConsumer_Close (Some (ErrorString ''use of closed network connection''))
        \<lparr>connection = Some 0, dopplerAddr = ''wss://doppler'', token = ''t'', subscriptionID = ''s'',
         insecure = False, debugPrinter = None, logger = 1\<rparr>"
      and st = "Stop \<lparr>cancelFunc = Some 0, sd_logger = 2\<rparr>"
      and w = "\<lparr>contexts = [None], logged = []\<rparr>"
      and cc = None
      and c = "\<lparr>connection = Some 0, dopplerAddr = ''wss://doppler'', token = ''t'', subscriptionID = ''s'',
         insecure = False, debugPrinter = None, logger = 1\<rparr>"
      and d = "\<lparr>cancelFunc = Some 0, sd_logger = 2\<rparr>"
      and ?w0.0 = "\<lparr>contexts = [None], logged = []\<rparr>"]
  by (simp add: consumer_Close_def rawConsumer_Close_def Stop_def Println_def cancel_def finish_def)

section \<open>The classifier\<close>

text \<open>
  C9. \<open>isTruncated\<close> returns normally on every envelope: it never takes the panic branch,
  not on a \<open>nil\<close> envelope and not on an envelope typed as a counter event whose counter
  payload is \<open>nil\<close>. An envelope that lacks the event type, the counter payload, the
  counter's name or the origin is classified as not anomalous.
\<close>

theorem isTruncated_total:
  "(\<exists>b. isTruncated envelope = Inr b)
   \<and> isTruncated None = Inr False
   \<and> isTruncated (Some (e\<lparr>CounterEvent := None\<rparr>)) = Inr False
   \<and> isTruncated (Some (e\<lparr>EventType := None\<rparr>)) = Inr False
   \<and> isTruncated (Some (e\<lparr>Origin := None\<rparr>)) = Inr False
   \<and> isTruncated (Some (e\<lparr>CounterEvent := Some (c\<lparr>Name := None\<rparr>)\<rparr>)) = Inr False"
  by (simp add: isTruncated_signature GetEventType_def GetName_def GetOrigin_def)

section \<open>Stopping a detector\<close>

text \<open>
  C6. On a detector whose cancel function has not been stored (\<open>Detect\<close> has not run),
  \<open>Stop\<close> returns the error "cancel function is not given" and touches no scope. After
  \<open>Detect\<close>, \<open>Stop\<close> returns \<open>nil\<close> in every state; the first call ends the pipeline's
  scope with \<open>Canceled\<close>, and a call made when the scope is already done leaves all scopes
  as they are. Cancelling is idempotent, and a scope that is done stays done with the
  same error whatever scope is ended afterwards.
\<close>

theorem Stop_lifecycle:
  assumes fresh: "cancelFunc sd = None" and started: "Detect sd w = Inr (sd', w', p)"
  shows "fst (Stop sd w0) = Some (Errorf ''cancel function is not given'')
   \<and> contexts (snd (Stop sd w0)) = contexts w0
   \<and> ctx_Err w' (ctx p) = None
   \<and> fst (Stop sd' w1) = None
   \<and> ctx_Err (snd (Stop sd' w')) (ctx p) = Some (ContextError Canceled)
   \<and> (ctx_Done w1 (ctx p) \<longrightarrow> contexts (snd (Stop sd' w1)) = contexts w1)
   \<and> contexts (snd (Stop sd' (snd (Stop sd' w')))) = contexts (snd (Stop sd' w'))
   \<and> cancel i (cancel i w1) = cancel i w1
   \<and> (ctx_Done w1 i \<longrightarrow> ctx_Done (finish j e w1) i \<and> ctx_Err (finish j e w1) i = ctx_Err w1 i)"
proof -
  let ?n = "length (contexts w)"
  from started have sd': "cancelFunc sd' = Some ?n" and p: "ctx p = ?n"
    and w': "w' = Println (sd_logger sd) ''[INFO] Start detecting slowConsumerAlert event''
                    (w\<lparr>contexts := contexts w @ [None]\<rparr>)"
    by (auto simp: Detect_result)
  have a: "fst (Stop sd w0) = Some (Errorf ''cancel function is not given'')"
    and b: "contexts (snd (Stop sd w0)) = contexts w0"
    by (simp_all add: Stop_unarmed [OF fresh])
  have c: "ctx_Err w' (ctx p) = None"
    by (simp add: w' p ctx_Err_def Println_def)
  have d: "fst (Stop sd' w1) = None"
    by (simp add: Stop_armed [OF sd'])
  have e: "ctx_Err (snd (Stop sd' w')) (ctx p) = Some (ContextError Canceled)"
    by (simp add: Stop_armed [OF sd'] p w' cancel_def finish_def ctx_Err_def Println_def)
  have f: "ctx_Done w1 (ctx p) \<longrightarrow> contexts (snd (Stop sd' w1)) = contexts w1"
    by (simp add: Stop_armed [OF sd'] p cancel_def finish_done_id)
  from e have "ctx_Done (snd (Stop sd' w')) (ctx p)"
    by (simp add: ctx_Done_def)
  then have g: "contexts (snd (Stop sd' (snd (Stop sd' w')))) = contexts (snd (Stop sd' w'))"
    by (simp add: Stop_armed [OF sd'] p cancel_def finish_done_id)
  have h: "cancel i (cancel i w1) = cancel i w1"
    by (simp add: cancel_def finish_idem)
  have k: "ctx_Done w1 i \<longrightarrow> ctx_Done (finish j e w1) i \<and> ctx_Err (finish j e w1) i = ctx_Err w1 i"
    by (simp add: finish_Done_mono finish_Err_keep)
  from a b c d e f g h k show ?thesis by blast
qed

theorem Stop_lifecycle_witness:
  "fst (Stop \<lparr>cancelFunc = None, sd_logger = 0\<rparr> \<lparr>contexts = [], logged = []\<rparr>)
     = Some (Errorf ''cancel function is not given'')
   \<and> fst (Stop \<lparr>cancelFunc = Some 0, sd_logger = 0\<rparr> \<lparr>contexts = [None], logged = []\<rparr>) = None
   \<and> Detect \<lparr>cancelFunc = None, sd_logger = 0\<rparr> \<lparr>contexts = [], logged = []\<rparr>
       = Inr (\<lparr>cancelFunc = Some 0, sd_logger = 0\<rparr>,
              \<lparr>contexts = [None], logged = [(0, ''[INFO] Start detecting slowConsumerAlert event'')]\<rparr>,
              \<lparr>ctx = 0, plogger = 0, ev = EvRange, er = ErRange,
               eventCh_closed = False, errCh_closed = False,
               eventCh_out = [], errCh_out = [], detectCh_out = []\<rparr>)"
proof -
  have fresh: "cancelFunc \<lparr>cancelFunc = None, sd_logger = 0\<rparr> = None" by simp
  have started: "Detect \<lparr>cancelFunc = None, sd_logger = 0\<rparr> \<lparr>contexts = [], logged = []\<rparr>
       = Inr (\<lparr>cancelFunc = Some 0, sd_logger = 0\<rparr>,
              \<lparr>contexts = [None], logged = [(0, ''[INFO] Start detecting slowConsumerAlert event'')]\<rparr>,
              \<lparr>ctx = 0, plogger = 0, ev = EvRange, er = ErRange,
               eventCh_closed = False, errCh_closed = False,
               eventCh_out = [], errCh_out = [], detectCh_out = []\<rparr>)"
    by (simp add: Detect_def WithCancel_def DetectContext_def Println_def)
  from Stop_lifecycle [OF fresh started, of "\<lparr>contexts = [], logged = []\<rparr>"
      "\<lparr>contexts = [None], logged = []\<rparr>" 0 0 Canceled] started
  show ?thesis by simp
qed

text \<open>
  C10. Only \<open>Detect\<close> stores a cancel function. On a detector without one, a pipeline
  started by \<open>DetectContext\<close> with a caller's scope runs (both goroutines are at their
  \<open>range\<close> loops on that scope), and however the run continues, as long as nothing but
  \<open>Stop\<close> on this detector tries to end a scope, \<open>Stop\<close> returns the error "cancel
  function is not given" and every scope, the pipeline's included, stays as it was before
  the start.
\<close>

theorem DetectContext_never_arms_Stop:
  assumes "cancelFunc sd = None"
    and "DetectContext sd (Some i) w = Inr (w', p)"
    and "exec run (w', p) = Some (w'', p'')"
    and "\<forall>a\<in>set run. only_Stop_of sd a"
  shows "ev p = EvRange \<and> er p = ErRange \<and> ctx p = i
       \<and> fst (Stop sd w'') = Some (Errorf ''cancel function is not given'')
       \<and> contexts (snd (Stop sd w'')) = contexts w
       \<and> ctx_Err (snd (Stop sd w'')) i = ctx_Err w i"
proof -
  from assms(2) have p: "ev p = EvRange" "er p = ErRange" "ctx p = i" and w': "contexts w' = contexts w"
    by (auto simp: DetectContext_def)
  from exec_contexts [OF assms(4) assms(1) assms(3)] w' have "contexts w'' = contexts w"
    by simp
  with p show ?thesis
    by (simp add: Stop_unarmed [OF assms(1)] ctx_Err_def)
qed

theorem DetectContext_never_arms_Stop_witness:
  "DetectContext \<lparr>cancelFunc = None, sd_logger = 0\<rparr> (Some 0) \<lparr>contexts = [None], logged = []\<rparr>
     = Inr (\<lparr>contexts = [None], logged = [(0, ''[INFO] Start detecting slowConsumerAlert event'')]\<rparr>,
            \<lparr>ctx = 0, plogger = 0, ev = EvRange, er = ErRange,
             eventCh_closed = False, errCh_closed = False,
             eventCh_out = [], errCh_out = [], detectCh_out = []\<rparr>)
   \<and> exec [EvRecv None, CallStop \<lparr>cancelFunc = None, sd_logger = 0\<rparr>, EvForwarded]
        (\<lparr>contexts = [None], logged = [(0, ''[INFO] Start detecting slowConsumerAlert event'')]\<rparr>,
         \<lparr>ctx = 0, plogger = 0, ev = EvRange, er = ErRange,
          eventCh_closed = False, errCh_closed = False,
          eventCh_out = [], errCh_out = [], detectCh_out = []\<rparr>)
     = Some (\<lparr>contexts = [None],
              logged = [(0, ''[INFO] Start detecting slowConsumerAlert event''),
                        (0, ''[INFO] Stop detecting slowConsumerAlert event'')]\<rparr>,
             \<lparr>ctx = 0, plogger = 0, ev = EvRange, er = ErRange,
              eventCh_closed = False, errCh_closed = False,
              eventCh_out = [None], errCh_out = [], detectCh_out = []\<rparr>)
   \<and> fst (Stop \<lparr>cancelFunc = None, sd_logger = 0\<rparr>
        \<lparr>contexts = [None],
         logged = [(0, ''[INFO] Start detecting slowConsumerAlert event''),
                   (0, ''[INFO] Stop detecting slowConsumerAlert event'')]\<rparr>)
     = Some (Errorf ''cancel function is not given'')
   \<and> ctx_Err (snd (Stop \<lparr>cancelFunc = None, sd_logger = 0\<rparr>
        \<lparr>contexts = [None],
         logged = [(0, ''[INFO] Start detecting slowConsumerAlert event''),
                   (0, ''[INFO] Stop detecting slowConsumerAlert event'')]\<rparr>)) 0 = None"
proof -
  let ?sd = "\<lparr>cancelFunc = None, sd_logger = 0\<rparr>"
  let ?w = "\<lparr>contexts = [None], logged = []\<rparr>"
  let ?w' = "\<lparr>contexts = [None], logged = [(0, ''[INFO] Start detecting slowConsumerAlert event'')]\<rparr>"
  let ?p = "\<lparr>ctx = 0, plogger = 0, ev = EvRange, er = ErRange,
             eventCh_closed = False, errCh_closed = False,
             eventCh_out = [], errCh_out = [], detectCh_out = []\<rparr>"
  let ?w'' = "\<lparr>contexts = [None],
              logged = [(0, ''[INFO] Start detecting slowConsumerAlert event''),
                        (0, ''[INFO] Stop detecting slowConsumerAlert event'')]\<rparr>"
  let ?p'' = "\<lparr>ctx = 0, plogger = 0, ev = EvRange, er = ErRange,
              eventCh_closed = False, errCh_closed = False,
              eventCh_out = [None], errCh_out = [], detectCh_out = []\<rparr>"
  let ?run = "[EvRecv None, CallStop ?sd, EvForwarded]"
  have h1: "cancelFunc ?sd = None" by simp
  have h2: "DetectContext ?sd (Some 0) ?w = Inr (?w', ?p)"
    by (simp add: DetectContext_def Println_def)
  have h3: "exec ?run (?w', ?p) = Some (?w'', ?p'')"
    by (simp add: step.simps crashed_def isTruncated_def GetEventType_def Stop_def Println_def)
  have h4: "\<forall>a\<in>set ?run. only_Stop_of ?sd a"
    by (simp add: only_Stop_of_def)
  from DetectContext_never_arms_Stop [OF h1 h2 h3 h4] h2 h3
  show ?thesis by (simp add: ctx_Err_def)
qed

end
